theory Spec2Isabelle
  imports Main
begin

section \<open>Python values used by the FEFF output parsers\<close>

text \<open>
  The parsers of \<^verbatim>\<open>pymatgen/io/feff/outputs.py\<close> read text files and move numbers
  into lists and dictionaries. Every exception the Python code can raise is a value of
  \<open>error\<close>, and a call that may raise returns \<open>error + 'a\<close> (\<open>Inl\<close> is the raise).
  Python floats are a type parameter \<open>'f\<close>: the parsers never compute with them
  except for the additions that build the total density of states, so the only
  operations needed are \<open>0\<close> and \<open>+\<close>, and no property of floating-point arithmetic
  is assumed.
\<close>

datatype error = IOError | IndexError | KeyError | ValueError | TypeError | OtherError string

definition bind_e :: "error + 'a \<Rightarrow> ('a \<Rightarrow> error + 'b) \<Rightarrow> error + 'b" where
  "bind_e m f = (case m of Inl e \<Rightarrow> Inl e | Inr a \<Rightarrow> f a)"

text \<open>\<open>[f x for x in xs]\<close> and a \<open>for\<close> loop over \<open>xs\<close> that updates a value:
  the first raise ends the loop.\<close>

fun mapM_e :: "('a \<Rightarrow> error + 'b) \<Rightarrow> 'a list \<Rightarrow> error + 'b list" where
  "mapM_e f [] = Inr []"
| "mapM_e f (x # xs) = bind_e (f x) (\<lambda>y. bind_e (mapM_e f xs) (\<lambda>ys. Inr (y # ys)))"

fun foldM_e :: "('a \<Rightarrow> 's \<Rightarrow> error + 's) \<Rightarrow> 'a list \<Rightarrow> 's \<Rightarrow> error + 's" where
  "foldM_e f [] s = Inr s"
| "foldM_e f (x # xs) s = bind_e (f x s) (foldM_e f xs)"

text \<open>\<open>xs[i]\<close> for a non-negative index, \<open>d[k]\<close> for a dictionary.\<close>

definition nth_e :: "'a list \<Rightarrow> nat \<Rightarrow> error + 'a" where
  "nth_e xs i = (if i < length xs then Inr (xs ! i) else Inl IndexError)"

definition getitem :: "('k \<Rightarrow> 'v option) \<Rightarrow> 'k \<Rightarrow> error + 'v" where
  "getitem d k = (case d k of None \<Rightarrow> Inl KeyError | Some v \<Rightarrow> Inr v)"

subsection \<open>Strings\<close>

text \<open>
  A character is a code point below 256. Those that \<open>str.split()\<close> treats as white
  space are tab, line feed, vertical tab, form feed, carriage return, the four separators
  0x1C to 0x1F, space, next line (0x85) and no-break space (0xA0).
\<close>

definition is_space :: "char \<Rightarrow> bool" where
  "is_space c = (of_char c \<in> {9::nat, 10, 11, 12, 13, 28, 29, 30, 31, 32, 133, 160})"

fun split_aux :: "string \<Rightarrow> string \<Rightarrow> string list" where
  "split_aux cur [] = (if cur = [] then [] else [cur])"
| "split_aux cur (c # cs) =
     (if is_space c then (if cur = [] then split_aux [] cs else cur # split_aux [] cs)
      else split_aux (cur @ [c]) cs)"

definition split :: "string \<Rightarrow> string list" where
  "split s = split_aux [] s"

text \<open>\<open>str.splitlines()\<close>: the line boundaries below 256 are line feed, carriage
  return, carriage return followed by line feed, vertical tab, form feed, the separators
  0x1C to 0x1E and next line (0x85). The boundary is dropped, and a final boundary opens
  no empty line.\<close>

definition is_linebreak :: "char \<Rightarrow> bool" where
  "is_linebreak c = (of_char c \<in> {10::nat, 11, 12, 13, 28, 29, 30, 133})"

fun splitlines_aux :: "string \<Rightarrow> string \<Rightarrow> string list" where
  "splitlines_aux cur [] = (if cur = [] then [] else [cur])"
| "splitlines_aux cur [c] =
     (if is_linebreak c then [cur] else [cur @ [c]])"
| "splitlines_aux cur (c # d # cs) =
     (if of_char c = (13::nat) \<and> of_char d = (10::nat) then cur # splitlines_aux [] cs
      else if is_linebreak c then cur # splitlines_aux [] (d # cs)
      else splitlines_aux (cur @ [c]) (d # cs))"

definition splitlines :: "string \<Rightarrow> string list" where
  "splitlines s = splitlines_aux [] s"

text \<open>\<open>str(i)\<close> for a non-negative integer: its decimal digits.\<close>

definition digit_char :: "nat \<Rightarrow> char" where
  "digit_char d = char_of (48 + d)"

fun str_nat :: "nat \<Rightarrow> string" where
  "str_nat n = (if n < 10 then [digit_char n] else str_nat (n div 10) @ [digit_char (n mod 10)])"

declare str_nat.simps [simp del]

section \<open>numpy arrays\<close>

text \<open>
  An array of dimension 0, 1 or 2, as \<open>numpy.loadtxt\<close> returns them. A two-dimensional
  array carries its number of columns, which an array with no row still has. In a
  well-formed array every row has that many entries.
\<close>

datatype 'f ndarray = A0 'f | A1 "'f list" | A2 nat "'f list list"

fun wf_ndarray :: "'f ndarray \<Rightarrow> bool" where
  "wf_ndarray (A2 c rows) = list_all (\<lambda>r. length r = c) rows"
| "wf_ndarray _ = True"

text \<open>\<open>len(a)\<close>, \<open>a[i]\<close> and the float in a zero-dimensional result.\<close>

fun len_nd :: "'f ndarray \<Rightarrow> error + nat" where
  "len_nd (A0 x) = Inl TypeError"
| "len_nd (A1 xs) = Inr (length xs)"
| "len_nd (A2 c rows) = Inr (length rows)"

fun getitem_nd :: "'f ndarray \<Rightarrow> nat \<Rightarrow> error + 'f ndarray" where
  "getitem_nd (A0 x) i = Inl IndexError"
| "getitem_nd (A1 xs) i = (if i < length xs then Inr (A0 (xs ! i)) else Inl IndexError)"
| "getitem_nd (A2 c rows) i = (if i < length rows then Inr (A1 (rows ! i)) else Inl IndexError)"

fun scalar :: "'f ndarray \<Rightarrow> error + 'f" where
  "scalar (A0 x) = Inr x"
| "scalar _ = Inl TypeError"

text \<open>\<open>a[i][k]\<close>, read as a number.\<close>

definition item2 :: "'f ndarray \<Rightarrow> nat \<Rightarrow> nat \<Rightarrow> error + 'f" where
  "item2 a i k = bind_e (getitem_nd a i) (\<lambda>r. bind_e (getitem_nd r k) scalar)"

text \<open>\<open>a[:, k]\<close>: column \<open>k\<close> of a two-dimensional array; an array of lower dimension
  has too many indices.\<close>

fun column :: "'f ndarray \<Rightarrow> nat \<Rightarrow> error + 'f ndarray" where
  "column (A2 c rows) k = (if k < c then Inr (A1 (map (\<lambda>r. r ! k) rows)) else Inl IndexError)"
| "column _ k = Inl IndexError"

text \<open>
  \<open>a.tolist()\<close> gives a number, a list or a list of lists; an array with no row gives
  the empty list whatever its shape. \<open>numpy.array\<close> of such a value builds the array
  back: the empty list is the one-dimensional empty array, and rows of different
  lengths are refused.
\<close>

datatype 'f nested = N0 'f | N1 "'f list" | N2 "'f list list"

fun tolist :: "'f ndarray \<Rightarrow> 'f nested" where
  "tolist (A0 x) = N0 x"
| "tolist (A1 xs) = N1 xs"
| "tolist (A2 c rows) = (if rows = [] then N1 [] else N2 rows)"

fun np_array :: "'f nested \<Rightarrow> error + 'f ndarray" where
  "np_array (N0 x) = Inr (A0 x)"
| "np_array (N1 xs) = Inr (A1 xs)"
| "np_array (N2 rows) =
     (case rows of [] \<Rightarrow> Inr (A1 [])
      | r # rs \<Rightarrow> if list_all (\<lambda>q. length q = length r) rs then Inr (A2 (length r) rows)
                 else Inl ValueError)"

subsection \<open>numpy.loadtxt\<close>

text \<open>
  \<open>numpy.loadtxt(path)\<close> with its default arguments, on the lines of the file: the
  text from the first \<open>#\<close> of a line is a comment, a line with no token is skipped, every
  token is converted to a float, and all rows must have as many tokens as the first.
  The table is then squeezed: axes of length one are dropped.
\<close>

definition tokens_of_line :: "string \<Rightarrow> string list" where
  "tokens_of_line l = split (takeWhile (\<lambda>c. c \<noteq> CHR ''#'') l)"

definition data_lines :: "string list \<Rightarrow> string list list" where
  "data_lines ls = filter (\<lambda>ts. ts \<noteq> []) (map tokens_of_line ls)"

definition convert_row :: "(string \<Rightarrow> 'f option) \<Rightarrow> string list \<Rightarrow> error + 'f list" where
  "convert_row conv ts =
     mapM_e (\<lambda>t. case conv t of None \<Rightarrow> Inl ValueError | Some x \<Rightarrow> Inr x) ts"

definition loadtxt_rows :: "(string \<Rightarrow> 'f option) \<Rightarrow> string list \<Rightarrow> error + 'f list list" where
  "loadtxt_rows conv ls =
     bind_e (mapM_e (convert_row conv) (data_lines ls)) (\<lambda>rows.
       case rows of [] \<Rightarrow> Inr []
       | r # rs \<Rightarrow> if list_all (\<lambda>q. length q = length r) rs then Inr rows
                  else Inl ValueError)"

definition squeeze :: "'f list list \<Rightarrow> 'f ndarray" where
  "squeeze rows =
     (case rows of [] \<Rightarrow> A1 []
      | [r] \<Rightarrow> (case r of [x] \<Rightarrow> A0 x | _ \<Rightarrow> A1 r)
      | r # _ \<Rightarrow> if length r = 1 then A1 (map hd rows) else A2 (length r) rows)"

section \<open>The collaborators\<close>

text \<open>
  The parsers call code that is not part of the module: the file system, Python's
  \<open>float\<close> and \<open>str\<close>, numpy's conversion of a token, and the classes \<open>Header\<close>,
  \<open>Potential\<close> and \<open>Tags\<close> of \<^verbatim>\<open>pymatgen.io.feff\<close>. They are the fields of an
  environment, and every theorem holds for every environment. A file is the list of its
  lines, \<open>None\<close> when it cannot be opened. A Python dictionary that a collaborator
  returns is an association list, looked up with \<open>map_of\<close>; its \<open>len\<close> is the length
  of the list. What the module calls on a header (\<open>formula\<close>, \<open>as_dict\<close>) is a
  function of the header that may raise and does not change it.
\<close>

record 'f site =
  symbol :: string
  coords :: "'f list"

record 'f header =
  struct :: "'f site list"
  source :: string
  comment :: string

record ('f, 'tv, 'hd) env =
  files :: "string \<Rightarrow> string list option"
  py_float :: "string \<Rightarrow> 'f option"
  floatconv :: "string \<Rightarrow> 'f option"
  str_float :: "'f \<Rightarrow> string"
  header_string_from_file :: "string \<Rightarrow> error + string"
  Header_from_string :: "string \<Rightarrow> error + 'f header"
  Header_from_file :: "string \<Rightarrow> error + 'f header"
  Header_formula :: "'f header \<Rightarrow> error + string list"
  Header_as_dict :: "'f header \<Rightarrow> error + 'hd"
  Header_from_dict :: "'hd \<Rightarrow> error + 'f header"
  pot_string_from_file :: "string \<Rightarrow> error + string"
  pot_dict_from_string :: "string \<Rightarrow> error + ((string \<times> int) list \<times> (int \<times> string) list)"
  Tags_from_file :: "string \<Rightarrow> error + (string \<Rightarrow> 'tv option)"

text \<open>\<open>zopen(path).readlines()\<close>, \<open>float(t)\<close> and \<open>numpy.loadtxt(path)\<close> in an
  environment.\<close>

definition readlines :: "('f, 'tv, 'hd) env \<Rightarrow> string \<Rightarrow> error + string list" where
  "readlines E path = (case files E path of None \<Rightarrow> Inl IOError | Some ls \<Rightarrow> Inr ls)"

definition float_e :: "('f, 'tv, 'hd) env \<Rightarrow> string \<Rightarrow> error + 'f" where
  "float_e E t = (case py_float E t of None \<Rightarrow> Inl ValueError | Some x \<Rightarrow> Inr x)"

definition loadtxt :: "('f, 'tv, 'hd) env \<Rightarrow> string \<Rightarrow> error + 'f ndarray" where
  "loadtxt E path =
     bind_e (readlines E path) (\<lambda>ls.
     bind_e (loadtxt_rows (floatconv E) ls) (\<lambda>rows. Inr (squeeze rows)))"

section \<open>LDos\<close>

datatype spin = Spin_up | Spin_down

datatype orbital =
    Orbital_s | Orbital_py | Orbital_pz | Orbital_px
  | Orbital_dxy | Orbital_dyz | Orbital_dz2 | Orbital_dxz | Orbital_dx2
  | Orbital_f_3 | Orbital_f_2 | Orbital_f_1 | Orbital_f0 | Orbital_f1 | Orbital_f2 | Orbital_f3

text \<open>
  \<open>Dos(efermi, energies, densities)\<close> and \<open>CompleteDos(structure, total_dos, pdoss)\<close>
  store their arguments; a \<open>CompleteDos\<close> is a \<open>Dos\<close> (the total one) with the
  structure and the dictionary of partial densities, keyed by site, orbital and spin.
\<close>

record 'f dos =
  efermi :: 'f
  energies :: "'f list"
  densities :: "spin \<Rightarrow> 'f list option"

record 'f complete_dos = "'f dos" +
  dos_structure :: "'f site list"
  pdos :: "'f site \<Rightarrow> (orbital \<Rightarrow> (spin \<Rightarrow> 'f list option) option) option"

definition Dos :: "'f \<Rightarrow> 'f list \<Rightarrow> (spin \<Rightarrow> 'f list option) \<Rightarrow> 'f dos" where
  "Dos ef es ds = \<lparr>efermi = ef, energies = es, densities = ds\<rparr>"

definition CompleteDos ::
  "'f site list \<Rightarrow> 'f dos \<Rightarrow> ('f site \<Rightarrow> (orbital \<Rightarrow> (spin \<Rightarrow> 'f list option) option) option)
     \<Rightarrow> 'f complete_dos" where
  "CompleteDos st total_dos pdoss =
     \<lparr>efermi = efermi total_dos, energies = energies total_dos,
      densities = densities total_dos,
      dos_structure = st, pdos = pdoss\<rparr>"

text \<open>The charge transfer table: an ordered dictionary from \<open>str(i)\<close> to a dictionary
  from the atom of potential \<open>i\<close> to the dictionary of its five numbers.\<close>

type_synonym 'f charge_table = "(string \<times> (string \<times> (string \<Rightarrow> 'f option)) list) list"

record 'f ldos =
  complete_dos :: "'f complete_dos"
  charge_transfer :: "'f charge_table"

subsection \<open>LDos.from_file\<close>

text \<open>The name of the \<open>i\<close>-th ldos file: one digit is padded with a zero.\<close>

definition ldos_path :: "string \<Rightarrow> nat \<Rightarrow> string" where
  "ldos_path ldos_filename i =
     (if length (str_nat i) = 1 then ldos_filename @ ''0'' @ str_nat i @ ''.dat''
      else ldos_filename @ str_nat i @ ''.dat'')"

text \<open>\<open>float(f[l].split()[t])\<close>\<close>

definition float_at :: "('f, 'tv, 'hd) env \<Rightarrow> string list \<Rightarrow> nat \<Rightarrow> nat \<Rightarrow> error + 'f" where
  "float_at E f l t = bind_e (nth_e f l) (\<lambda>line. bind_e (nth_e (split line) t) (float_e E))"

definition read_efermi :: "('f, 'tv, 'hd) env \<Rightarrow> string \<Rightarrow> error + 'f" where
  "read_efermi E ldos_filename =
     bind_e (readlines E (ldos_filename @ ''00.dat'')) (\<lambda>f. float_at E f 0 4)"

text \<open>The dictionary \<open>ldos\<close>, filled for \<open>i\<close> in \<open>range(1, len(pot_dict) + 1)\<close>.\<close>

definition load_ldos ::
  "('f, 'tv, 'hd) env \<Rightarrow> string \<Rightarrow> nat \<Rightarrow> error + (int \<Rightarrow> 'f ndarray option)" where
  "load_ldos E ldos_filename n =
     foldM_e (\<lambda>i ldos. bind_e (loadtxt E (ldos_path ldos_filename i))
                          (\<lambda>a. Inr (ldos(int i \<mapsto> a))))
       [1..<n + 1] Map.empty"

text \<open>The three dictionary literals of the orbitals, as association lists: a loop over
  \<open>vorb.items()\<close> or \<open>forb.values()\<close> runs in the order in which the literal is
  written. The order only decides in which order the partial densities are added.\<close>

definition vorb :: "(string \<times> orbital) list" where
  "vorb = [(''s'', Orbital_s), (''p'', Orbital_py), (''d'', Orbital_dxy), (''f'', Orbital_f0)]"

definition forb :: "(string \<times> nat) list" where
  "forb = [(''s'', 0), (''p'', 1), (''d'', 2), (''f'', 3)]"

definition vorb2 :: "(nat \<times> orbital) list" where
  "vorb2 = [(0, Orbital_s), (1, Orbital_py), (2, Orbital_dxy), (3, Orbital_f0)]"

text \<open>\<open>[ldos[pot_index][j][k] for j in range(dlength)]\<close>: the dictionary is looked up
  once per entry, so no entry means no lookup.\<close>

definition density ::
  "(int \<Rightarrow> 'f ndarray option) \<Rightarrow> int \<Rightarrow> nat \<Rightarrow> nat \<Rightarrow> error + 'f list" where
  "density ldos pot_index k dlength =
     mapM_e (\<lambda>j. bind_e (getitem ldos pot_index) (\<lambda>a. item2 a j k)) [0..<dlength]"

text \<open>The truth value of \<open>downdos\<close>: \<open>None\<close> and the empty list are false.\<close>

fun truthy :: "'a list option \<Rightarrow> bool" where
  "truthy None = False"
| "truthy (Some xs) = (xs \<noteq> [])"

text \<open>The body of the loop over \<open>vorb.items()\<close>, for one site.\<close>

definition site_pdos ::
  "(int \<Rightarrow> 'f ndarray option) \<Rightarrow> int \<Rightarrow> nat
     \<Rightarrow> error + (orbital \<Rightarrow> (spin \<Rightarrow> 'f list option) option)" where
  "site_pdos ldos pot_index dlength =
     foldM_e (\<lambda>(k, v) d.
         bind_e (getitem (map_of forb) k) (\<lambda>c.
         bind_e (density ldos pot_index (c + 1) dlength) (\<lambda>dens.
           let updos = dens; downdos = None in
           if truthy downdos then Inr (d(v \<mapsto> [Spin_up \<mapsto> updos, Spin_down \<mapsto> the downdos]))
           else Inr (d(v \<mapsto> [Spin_up \<mapsto> updos])))))
       vorb Map.empty"

definition all_pdos ::
  "(int \<Rightarrow> 'f ndarray option) \<Rightarrow> (string \<times> int) list \<Rightarrow> 'f site list \<Rightarrow> nat \<Rightarrow> nat
     \<Rightarrow> error + (orbital \<Rightarrow> (spin \<Rightarrow> 'f list option) option) list" where
  "all_pdos ldos pot_dict st nsites dlength =
     mapM_e (\<lambda>i. bind_e (getitem (map_of pot_dict) (symbol (st ! i)))
                    (\<lambda>pot_index. site_pdos ldos pot_index dlength))
       [0..<nsites]"

text \<open>\<open>{v: pdos[i][v] for v in vorb2.values()}\<close>, where \<open>pdos[i]\<close> is a
  \<open>defaultdict(dict)\<close>, and the dictionary \<open>pdoss\<close> keyed by the sites.\<close>

definition orbital_dict ::
  "(orbital \<Rightarrow> (spin \<Rightarrow> 'f list option) option) \<Rightarrow> (orbital \<Rightarrow> (spin \<Rightarrow> 'f list option) option)" where
  "orbital_dict d =
     fold (\<lambda>v m. m(v \<mapsto> (case d v of None \<Rightarrow> Map.empty | Some x \<Rightarrow> x))) (map snd vorb2) Map.empty"

definition make_pdoss ::
  "'f site list \<Rightarrow> (orbital \<Rightarrow> (spin \<Rightarrow> 'f list option) option) list
     \<Rightarrow> ('f site \<Rightarrow> (orbital \<Rightarrow> (spin \<Rightarrow> 'f list option) option) option)" where
  "make_pdoss st pdos_list =
     fold (\<lambda>i m. m(st ! i \<mapsto> orbital_dict (pdos_list ! i))) [0..<length pdos_list] Map.empty"

text \<open>The loop \<open>for j in range(dlength): tdos[j] = tdos[j] + density[j]\<close>, and the two
  loops around it, over \<open>forb.values()\<close> and over the sites.\<close>

definition add_density :: "'f::plus list \<Rightarrow> nat \<Rightarrow> 'f list \<Rightarrow> 'f list" where
  "add_density dens dlength tdos = fold (\<lambda>j t. t[j := t ! j + dens ! j]) [0..<dlength] tdos"

definition site_tdos ::
  "(int \<Rightarrow> 'f::plus ndarray option) \<Rightarrow> int \<Rightarrow> nat \<Rightarrow> 'f list \<Rightarrow> error + 'f list" where
  "site_tdos ldos pot_index dlength tdos =
     foldM_e (\<lambda>v t. bind_e (density ldos pot_index (v + 1) dlength)
                       (\<lambda>dens. Inr (add_density dens dlength t)))
       (map snd forb) tdos"

definition total_tdos ::
  "(int \<Rightarrow> 'f::{zero,plus} ndarray option) \<Rightarrow> (string \<times> int) list \<Rightarrow> 'f site list \<Rightarrow> nat
     \<Rightarrow> nat \<Rightarrow> error + 'f list" where
  "total_tdos ldos pot_dict st nsites dlength =
     foldM_e (\<lambda>i t. bind_e (getitem (map_of pot_dict) (symbol (st ! i)))
                       (\<lambda>pot_index. site_tdos ldos pot_index dlength t))
       [0..<nsites] (replicate dlength 0)"

subsection \<open>LDos.charge_transfer_from_file\<close>

text \<open>\<open>cht[k] = v\<close> on an ordered dictionary: a new key goes last, a key that is there
  keeps its place.\<close>

fun od_set :: "('k \<times> 'v) list \<Rightarrow> 'k \<Rightarrow> 'v \<Rightarrow> ('k \<times> 'v) list" where
  "od_set [] k v = [(k, v)]"
| "od_set (p # ps) k v = (if fst p = k then (k, v) # ps else p # od_set ps k v)"

text \<open>The body of the loop, the same in both branches but for the name of the file.\<close>

definition charge_entry ::
  "('f, 'tv, 'hd) env \<Rightarrow> string \<Rightarrow> (int \<times> string) list \<Rightarrow> nat
     \<Rightarrow> error + (string \<times> (string \<Rightarrow> 'f option)) list" where
  "charge_entry E filename2 pot_dict i =
     bind_e (readlines E (if length (str_nat i) = 1 then filename2 @ ''0'' @ str_nat i @ ''.dat''
                          else filename2 @ str_nat i @ ''.dat'')) (\<lambda>f.
     bind_e (float_at E f 3 2) (\<lambda>s.
     bind_e (float_at E f 4 2) (\<lambda>p.
     bind_e (float_at E f 5 2) (\<lambda>d.
     bind_e (float_at E f 6 2) (\<lambda>f1.
     bind_e (float_at E f 1 4) (\<lambda>tot.
     bind_e (getitem (map_of pot_dict) (int i)) (\<lambda>atom.
       Inr [(atom, [''s'' \<mapsto> s, ''p'' \<mapsto> p, ''d'' \<mapsto> d, ''f'' \<mapsto> f1, ''tot'' \<mapsto> tot])])))))))"

definition LDos_charge_transfer_from_file ::
  "('f, 'tv, 'hd) env \<Rightarrow> string \<Rightarrow> string \<Rightarrow> error + 'f charge_table" where
  "LDos_charge_transfer_from_file E filename1 filename2 =
     bind_e (pot_string_from_file E filename1) (\<lambda>pot_string.
     bind_e (pot_dict_from_string E pot_string) (\<lambda>dicts.
       let pot_dict = snd dicts in
       foldM_e (\<lambda>i cht. bind_e (charge_entry E filename2 pot_dict i)
                           (\<lambda>v. Inr (od_set cht (str_nat i) v)))
         [0..<length (fst dicts) + 1] []))"

text \<open>\<open>LDos.from_file\<close>\<close>

definition LDos_from_file ::
  "('f::{zero,plus}, 'tv, 'hd) env \<Rightarrow> string \<Rightarrow> string \<Rightarrow> error + 'f ldos" where
  "LDos_from_file E filename1 filename2 =
     (let ldos_filename = filename2 in
      bind_e (header_string_from_file E filename1) (\<lambda>header_str.
      bind_e (Header_from_string E header_str) (\<lambda>header.
        let st = struct header; nsites = length st in
      bind_e (pot_string_from_file E filename1) (\<lambda>pot_string.
      bind_e (pot_dict_from_string E pot_string) (\<lambda>dicts.
        let pot_dict = fst dicts in
      bind_e (read_efermi E ldos_filename) (\<lambda>ef.
      bind_e (load_ldos E ldos_filename (length pot_dict)) (\<lambda>ldos.
      bind_e (bind_e (getitem ldos 1) len_nd) (\<lambda>n.
      bind_e (mapM_e (\<lambda>i. bind_e (getitem ldos 1) (\<lambda>a. item2 a i 0)) [0..<n]) (\<lambda>dos_energies.
      bind_e (bind_e (getitem ldos 1) len_nd) (\<lambda>dlength.
      bind_e (all_pdos ldos pot_dict st nsites dlength) (\<lambda>pdos_list.
        let pdoss = make_pdoss st pdos_list in
      bind_e (total_tdos ldos pot_dict st nsites dlength) (\<lambda>tdos.
        let tdos = [Spin_up \<mapsto> tdos];
            dos = Dos ef dos_energies tdos;
            cdos = CompleteDos st dos pdoss in
      bind_e (LDos_charge_transfer_from_file E filename1 filename2) (\<lambda>ct.
        Inr \<lparr>complete_dos = cdos, charge_transfer = ct\<rparr>)))))))))))))"

subsection \<open>LDos.charge_transfer_to_string\<close>

text \<open>
  A method takes the object and returns its result with the object after the call. An
  attribute is read with \<open>attr\<close>; a call that cannot touch the object is lifted with
  \<open>lift_m\<close>.
\<close>

type_synonym ('s, 'a) meth = "'s \<Rightarrow> (error + 'a) \<times> 's"

definition return_m :: "'a \<Rightarrow> ('s, 'a) meth" where
  "return_m x = (\<lambda>self. (Inr x, self))"

definition lift_m :: "error + 'a \<Rightarrow> ('s, 'a) meth" where
  "lift_m r = (\<lambda>self. (r, self))"

definition attr :: "('s \<Rightarrow> 'a) \<Rightarrow> ('s, 'a) meth" where
  "attr field = (\<lambda>self. (Inr (field self), self))"

definition bind_m :: "('s, 'a) meth \<Rightarrow> ('a \<Rightarrow> ('s, 'b) meth) \<Rightarrow> ('s, 'b) meth" where
  "bind_m m f = (\<lambda>self. case m self of (Inl e, self') \<Rightarrow> (Inl e, self')
                                      | (Inr a, self') \<Rightarrow> f a self')"

definition charge_lines ::
  "('f, 'tv, 'hd) env \<Rightarrow> string \<times> (string \<Rightarrow> 'f option) \<Rightarrow> error + string list" where
  "charge_lines E item =
     (case item of (atom, v2) \<Rightarrow>
       bind_e (getitem v2 ''s'') (\<lambda>s.
       bind_e (getitem v2 ''p'') (\<lambda>p.
       bind_e (getitem v2 ''d'') (\<lambda>d.
       bind_e (getitem v2 ''f'') (\<lambda>f.
       bind_e (getitem v2 ''tot'') (\<lambda>tot.
         Inr [[CHR 0x0A], atom, [CHR 0x0A], ''s   '', str_float E s, [CHR 0x0A],
              ''p   '', str_float E p, [CHR 0x0A],
              ''d   '', str_float E d, [CHR 0x0A],
              ''f   '', str_float E f, [CHR 0x0A],
              ''tot '', str_float E tot, [CHR 0x0A]]))))))"

definition charge_transfer_string :: "('f, 'tv, 'hd) env \<Rightarrow> 'f charge_table \<Rightarrow> error + string" where
  "charge_transfer_string E ch =
     bind_e (foldM_e (\<lambda>i chts. bind_e (getitem (map_of ch) (str_nat i)) (\<lambda>d.
                        foldM_e (\<lambda>item chts. bind_e (charge_lines E item) (\<lambda>a. Inr (chts @ a)))
                          d chts))
               [0..<length ch]
               [[CHR 0x0A] @ ''Charge Transfer'' @ [CHR 0x0A, CHR 0x0A] @ ''absorbing atom''])
       (\<lambda>chts. Inr (concat chts))"

definition LDos_charge_transfer_to_string ::
  "('f, 'tv, 'hd) env \<Rightarrow> ('f ldos, string) meth" where
  "LDos_charge_transfer_to_string E =
     bind_m (attr charge_transfer) (\<lambda>ch. lift_m (charge_transfer_string E ch))"

section \<open>Xmu\<close>

record ('f, 'tv) xmu =
  header :: "'f header"
  parameters :: "string \<Rightarrow> 'tv option"
  absorbing_atom :: string
  data :: "'f ndarray"

definition Xmu_from_file ::
  "('f, 'tv, 'hd) env \<Rightarrow> string \<Rightarrow> string \<Rightarrow> error + ('f, 'tv) xmu" where
  "Xmu_from_file E filename input_filename =
     bind_e (loadtxt E filename) (\<lambda>d.
     bind_e (Header_from_file E input_filename) (\<lambda>h.
     bind_e (Tags_from_file E input_filename) (\<lambda>ps.
     bind_e (pot_string_from_file E input_filename) (\<lambda>pots.
     bind_e (nth_e (splitlines pots) 1) (\<lambda>line.
     bind_e (nth_e (split line) 2) (\<lambda>atom.
       Inr \<lparr>header = h, parameters = ps, absorbing_atom = atom, data = d\<rparr>))))))"

subsection \<open>The properties\<close>

definition Xmu_energies :: "(('f, 'tv) xmu, 'f ndarray) meth" where
  "Xmu_energies = bind_m (attr data) (\<lambda>d. lift_m (column d 0))"

definition Xmu_relative_energies :: "(('f, 'tv) xmu, 'f ndarray) meth" where
  "Xmu_relative_energies = bind_m (attr data) (\<lambda>d. lift_m (column d 1))"

definition Xmu_wavenumber :: "(('f, 'tv) xmu, 'f ndarray) meth" where
  "Xmu_wavenumber = bind_m (attr data) (\<lambda>d. lift_m (column d 2))"

definition Xmu_mu :: "(('f, 'tv) xmu, 'f ndarray) meth" where
  "Xmu_mu = bind_m (attr data) (\<lambda>d. lift_m (column d 3))"

definition Xmu_mu0 :: "(('f, 'tv) xmu, 'f ndarray) meth" where
  "Xmu_mu0 = bind_m (attr data) (\<lambda>d. lift_m (column d 4))"

definition Xmu_chi :: "(('f, 'tv) xmu, 'f ndarray) meth" where
  "Xmu_chi = bind_m (attr data) (\<lambda>d. lift_m (column d 5))"

definition Xmu_source :: "(('f, 'tv) xmu, string) meth" where
  "Xmu_source = bind_m (attr header) (\<lambda>h. return_m (source h))"

definition Xmu_calc :: "(('f, 'tv) xmu, string) meth" where
  "Xmu_calc = bind_m (attr parameters)
     (\<lambda>ps. return_m (if ps ''XANES'' \<noteq> None then ''XANES'' else ''EXAFS''))"

text \<open>
  A formula is what \<open>map(str, form)\<close> runs over: the list of the strings of its
  elements, one character each when the formula is a string. The \<open>try\<close> catches
  \<open>IndexError\<close> and nothing else.
\<close>

definition No_formula_provided :: "string list" where
  "No_formula_provided = map (\<lambda>c. [c]) ''No formula provided''"

definition Xmu_material_formula :: "('f, 'tv, 'hd) env \<Rightarrow> (('f, 'tv) xmu, string) meth" where
  "Xmu_material_formula E =
     bind_m (attr header) (\<lambda>h.
     bind_m (case Header_formula E h of
               Inl e \<Rightarrow> if e = IndexError then return_m No_formula_provided else lift_m (Inl e)
             | Inr form \<Rightarrow> return_m form) (\<lambda>form.
       return_m (concat form)))"

definition Xmu_edge :: "(('f, 'tv) xmu, 'tv) meth" where
  "Xmu_edge = bind_m (attr parameters) (\<lambda>ps. lift_m (getitem ps ''EDGE''))"

subsection \<open>as_dict and from_dict\<close>

text \<open>The dictionary of \<open>as_dict\<close> has fifteen fixed keys, with values of different
  types: a record with one field for each key, in the order of the source.\<close>

record ('f, 'tv, 'hd) xmu_dict =
  k_module :: string
  k_class :: string
  k_energies :: "'f ndarray"
  k_mu :: "'f nested"
  k_mu0 :: "'f nested"
  k_chi :: "'f nested"
  k_atom :: string
  k_edge :: 'tv
  k_source :: string
  k_calc :: string
  k_formula :: string
  k_HEADER :: 'hd
  k_TAGS :: "string \<Rightarrow> 'tv option"
  k_c_atom :: string
  k_xmu :: "'f nested"

definition Xmu_as_dict ::
  "('f, 'tv, 'hd) env \<Rightarrow> (('f, 'tv) xmu, ('f, 'tv, 'hd) xmu_dict) meth" where
  "Xmu_as_dict E =
     bind_m Xmu_energies (\<lambda>v_energies.
     bind_m Xmu_mu (\<lambda>v_mu.
     bind_m Xmu_mu0 (\<lambda>v_mu0.
     bind_m Xmu_chi (\<lambda>v_chi.
     bind_m (attr absorbing_atom) (\<lambda>v_atom.
     bind_m Xmu_edge (\<lambda>v_edge.
     bind_m Xmu_source (\<lambda>v_source.
     bind_m Xmu_calc (\<lambda>v_calc.
     bind_m (Xmu_material_formula E) (\<lambda>v_formula.
     bind_m (attr header) (\<lambda>h.
     bind_m (lift_m (Header_as_dict E h)) (\<lambda>v_header.
     bind_m (attr parameters) (\<lambda>v_tags.
     bind_m (attr absorbing_atom) (\<lambda>v_c_atom.
     bind_m (attr data) (\<lambda>d.
       return_m \<lparr>k_module = ''pymatgen.io.feff.outputs'', k_class = ''Xmu'',
                 k_energies = v_energies, k_mu = tolist v_mu, k_mu0 = tolist v_mu0,
                 k_chi = tolist v_chi, k_atom = v_atom, k_edge = v_edge,
                 k_source = v_source, k_calc = v_calc, k_formula = v_formula,
                 k_HEADER = v_header, k_TAGS = v_tags, k_c_atom = v_c_atom,
                 k_xmu = tolist d\<rparr>))))))))))))))"

definition Xmu_from_dict ::
  "('f, 'tv, 'hd) env \<Rightarrow> ('f, 'tv, 'hd) xmu_dict \<Rightarrow> error + ('f, 'tv) xmu" where
  "Xmu_from_dict E xdict =
     bind_e (Header_from_dict E (k_HEADER xdict)) (\<lambda>h.
     bind_e (np_array (k_xmu xdict)) (\<lambda>d.
       Inr \<lparr>header = h, parameters = k_TAGS xdict, absorbing_atom = k_c_atom xdict, data = d\<rparr>))"

section \<open>Notions used in the statements\<close>

text \<open>A method keeps the object when the object after the call is the object before
  it, whatever the call returns or raises.\<close>

definition keeps_self :: "('s, 'a) meth \<Rightarrow> bool" where
  "keeps_self m = (\<forall>self. snd (m self) = self)"

text \<open>\<open>Xmu.from_dict(x.as_dict())\<close>\<close>

definition Xmu_roundtrip :: "('f, 'tv, 'hd) env \<Rightarrow> ('f, 'tv) xmu \<Rightarrow> error + ('f, 'tv) xmu" where
  "Xmu_roundtrip E x = bind_e (fst (Xmu_as_dict E x)) (Xmu_from_dict E)"

text \<open>\<open>pdos[site][orb][spin]\<close> of a \<open>CompleteDos\<close>, with \<open>None\<close> for a missing key.\<close>

definition partial_density :: "'f complete_dos \<Rightarrow> 'f site \<Rightarrow> orbital \<Rightarrow> spin \<Rightarrow> 'f list option" where
  "partial_density cd site orb sp =
     Option.bind (pdos cd site) (\<lambda>om. Option.bind (om orb) (\<lambda>sm. sm sp))"

text \<open>The four numbers that the site with potential \<open>p\<close> adds to the total density at
  index \<open>j\<close>, in the order of the loop.\<close>

definition site_terms ::
  "(int \<Rightarrow> 'f ndarray option) \<Rightarrow> int \<Rightarrow> nat \<Rightarrow> nat \<Rightarrow> 'f list" where
  "site_terms ldos p n j = map (\<lambda>k. projr (density ldos p (k + 1) n) ! j) [0..<4]"

text \<open>The float \<open>x\<close> is read from token \<open>t\<close> of line \<open>l\<close> (both counted from 0).\<close>

definition token_float :: "('f, 'tv, 'hd) env \<Rightarrow> string list \<Rightarrow> nat \<Rightarrow> nat \<Rightarrow> 'f \<Rightarrow> bool" where
  "token_float E lines l t x \<longleftrightarrow>
     l < length lines \<and> t < length (split (lines ! l)) \<and> py_float E (split (lines ! l) ! t) = Some x"

text \<open>
  What the two readers read. A table parses when every token of every data line converts
  and all data lines have as many tokens as the first. \<open>LDos.from_file\<close> reads the
  header and the potentials of the input file, the Fermi level in the first line of
  \<^verbatim>\<open>ldos00.dat\<close>, the five charge numbers in the lines 2 and 4 to 7 of every ldos file,
  the table of every numbered ldos file, and, when the first table has rows, the first
  five columns of as many rows in the table of the potential of every site.
  \<open>Xmu.from_file\<close> reads the table of \<^verbatim>\<open>xmu.dat\<close>, the header and the tags of the
  input file, and the third token of the second line of its potentials.
\<close>

definition numeric_table :: "(string \<Rightarrow> 'f option) \<Rightarrow> string list \<Rightarrow> bool" where
  "numeric_table conv ls \<longleftrightarrow>
     (\<forall>ts\<in>set (data_lines ls). (\<forall>t\<in>set ts. conv t \<noteq> None)
                               \<and> length ts = length (hd (data_lines ls)))"

definition charge_lines_present :: "('f, 'tv, 'hd) env \<Rightarrow> string list \<Rightarrow> bool" where
  "charge_lines_present E lines \<longleftrightarrow>
     (\<exists>s p d f tot. token_float E lines 3 2 s \<and> token_float E lines 4 2 p
        \<and> token_float E lines 5 2 d \<and> token_float E lines 6 2 f \<and> token_float E lines 1 4 tot)"

definition ldos_inputs_present :: "('f, 'tv, 'hd) env \<Rightarrow> string \<Rightarrow> string \<Rightarrow> bool" where
  "ldos_inputs_present E filename1 filename2 \<longleftrightarrow>
     (\<exists>hs h ps dicts lines0 lines1 ef.
        header_string_from_file E filename1 = Inr hs \<and> Header_from_string E hs = Inr h
      \<and> pot_string_from_file E filename1 = Inr ps \<and> pot_dict_from_string E ps = Inr dicts
      \<and> files E (filename2 @ ''00.dat'') = Some lines0 \<and> token_float E lines0 0 4 ef
      \<and> files E (filename2 @ ''01.dat'') = Some lines1
      \<and> (data_lines lines1 = []
           \<or> 2 \<le> length (data_lines lines1) \<and> 2 \<le> length (hd (data_lines lines1)))
      \<and> (\<forall>i\<in>{0..length (fst dicts)}. \<exists>lines.
            files E (ldos_path filename2 i) = Some lines
          \<and> charge_lines_present E lines \<and> map_of (snd dicts) (int i) \<noteq> None
          \<and> (1 \<le> i \<longrightarrow> numeric_table (floatconv E) lines))
      \<and> (\<forall>site\<in>set (struct h). \<exists>p.
            map_of (fst dicts) (symbol site) = Some p
          \<and> (data_lines lines1 \<noteq> [] \<longrightarrow>
               1 \<le> p \<and> p \<le> int (length (fst dicts))
             \<and> (\<exists>lines. files E (ldos_path filename2 (nat p)) = Some lines
                  \<and> length (data_lines lines1) \<le> length (data_lines lines)
                  \<and> 5 \<le> length (hd (data_lines lines))))))"

definition xmu_inputs_present :: "('f, 'tv, 'hd) env \<Rightarrow> string \<Rightarrow> string \<Rightarrow> bool" where
  "xmu_inputs_present E filename input_filename \<longleftrightarrow>
     (\<exists>lines. files E filename = Some lines \<and> numeric_table (floatconv E) lines)
   \<and> (\<exists>h. Header_from_file E input_filename = Inr h)
   \<and> (\<exists>ps. Tags_from_file E input_filename = Inr ps)
   \<and> (\<exists>pots. pot_string_from_file E input_filename = Inr pots
         \<and> 1 < length (splitlines pots) \<and> 2 < length (split (splitlines pots ! 1)))"

section \<open>A small run\<close>

text \<open>
  An environment for the concrete instances of the theorems: floats are integers,
  written as digit strings; the structure has a cobalt and two oxygen sites; there are
  two potentials beside the absorbing atom, hence the files \<^verbatim>\<open>ldos00.dat\<close> to
  \<^verbatim>\<open>ldos02.dat\<close>, whose seven header lines are comments for \<open>loadtxt\<close>.
\<close>

definition digit_value :: "char \<Rightarrow> nat option" where
  "digit_value c = (let n = of_char c in if 48 \<le> n \<and> n \<le> (57::nat) then Some (n - 48) else None)"

fun digits_value :: "nat \<Rightarrow> string \<Rightarrow> nat option" where
  "digits_value acc [] = Some acc"
| "digits_value acc (c # cs) =
     (case digit_value c of None \<Rightarrow> None | Some d \<Rightarrow> digits_value (10 * acc + d) cs)"

definition int_literal :: "string \<Rightarrow> int option" where
  "int_literal s = (if s = [] then None else map_option int (digits_value 0 s))"

definition ex_sites :: "int site list" where
  "ex_sites = [\<lparr>symbol = ''Co'', coords = [0, 0, 0]\<rparr>, \<lparr>symbol = ''O'', coords = [1, 0, 0]\<rparr>,
               \<lparr>symbol = ''O'', coords = [0, 1, 0]\<rparr>]"

definition ex_header :: "int header" where
  "ex_header = \<lparr>struct = ex_sites, source = ''example'', comment = ''None given''\<rparr>"

definition ex_ldos_head :: "string list" where
  "ex_ldos_head = [''# Fermi level (eV): 5'', ''# Charge transfer : 3'', ''# Electron counts'',
                   ''# 0 1'', ''# 1 2'', ''# 2 0'', ''# 3 0'']"

definition ex_files :: "string \<Rightarrow> string list option" where
  "ex_files path =
     (if path = ''ldos00.dat'' then Some ex_ldos_head
      else if path = ''ldos01.dat'' then Some (ex_ldos_head @ [''1 10 20 30 40'', ''2 11 21 31 41''])
      else if path = ''ldos02.dat'' then Some (ex_ldos_head @ [''1 50 60 70 80'', ''2 51 61 71 81''])
      else if path = ''xmu.dat'' then Some [''# xmu'', ''1 2 3 4 5 6'', ''7 8 9 10 11 12'']
      else if path = ''xmu3.dat'' then Some [''1 2 3'', ''4 5 6'']
      else None)"

definition ex_env :: "(int, string, int header) env" where
  "ex_env = \<lparr>files = ex_files, py_float = int_literal, floatconv = int_literal,
     str_float = (\<lambda>x. str_nat (nat x)),
     header_string_from_file = (\<lambda>p. if p = ''feff.inp'' then Inr ''TITLE example'' else Inl IOError),
     Header_from_string = (\<lambda>s. Inr ex_header),
     Header_from_file = (\<lambda>p. if p = ''feff.inp'' then Inr ex_header else Inl IOError),
     Header_formula = (\<lambda>h. if struct h = [] then Inl IndexError else Inr (map symbol (struct h))),
     Header_as_dict = (\<lambda>h. Inr h),
     Header_from_dict = (\<lambda>h. Inr h),
     pot_string_from_file = (\<lambda>p. if p = ''feff.inp''
        then Inr (''POTENTIALS'' @ [CHR 0x0A] @ ''0 27 Co'' @ [CHR 0x0A] @ ''1 27 Co''
                  @ [CHR 0x0A] @ ''2 8 O'')
        else Inl IOError),
     pot_dict_from_string =
       (\<lambda>s. Inr ([(''Co'', 1), (''O'', 2)], [(0, ''Co''), (1, ''Co''), (2, ''O'')])),
     Tags_from_file = (\<lambda>p. if p = ''feff.inp'' then Inr [''EDGE'' \<mapsto> ''K'', ''XANES'' \<mapsto> ''3.7'']
                            else Inl IOError)\<rparr>"

definition ex_xmu :: "(int, string) xmu" where
  "ex_xmu = \<lparr>header = ex_header, parameters = [''EDGE'' \<mapsto> ''K'', ''XANES'' \<mapsto> ''3.7''],
             absorbing_atom = ''Co'', data = A2 6 [[1, 2, 3, 4, 5, 6], [7, 8, 9, 10, 11, 12]]\<rparr>"

text \<open>The same object for an input that names the edge with a \<open>HOLE\<close> card, and with a
  table of six columns and no row.\<close>

definition ex_xmu_hole :: "(int, string) xmu" where
  "ex_xmu_hole = ex_xmu\<lparr>parameters := [''HOLE'' \<mapsto> ''1 1.0'']\<rparr>"

definition ex_xmu_norow :: "(int, string) xmu" where
  "ex_xmu_norow = ex_xmu\<lparr>data := A2 6 []\<rparr>"

text \<open>The object read from a table of three columns.\<close>

definition ex_xmu3 :: "(int, string) xmu" where
  "ex_xmu3 = ex_xmu\<lparr>data := A2 3 [[1, 2, 3], [4, 5, 6]]\<rparr>"





section \<open>Basic facts\<close>

lemma bind_e_Inl [simp]: "bind_e (Inl e) f = Inl e"
  by (simp add: bind_e_def)

lemma bind_e_Inr [simp]: "bind_e (Inr a) f = f a"
  by (simp add: bind_e_def)

lemma bind_e_eq_Inr: "bind_e m f = Inr y \<longleftrightarrow> (\<exists>a. m = Inr a \<and> f a = Inr y)"
  by (cases m) simp_all

lemma keeps_return: "keeps_self (return_m x)"
  by (simp add: keeps_self_def return_m_def)

lemma keeps_lift: "keeps_self (lift_m r)"
  by (simp add: keeps_self_def lift_m_def)

lemma keeps_attr: "keeps_self (attr g)"
  by (simp add: keeps_self_def attr_def)

lemma keeps_bind:
  assumes "keeps_self m" and "\<And>a. keeps_self (f a)"
  shows "keeps_self (bind_m m f)"
  unfolding keeps_self_def
proof
  fix self
  obtain r s where ms: "m self = (r, s)" by (cases "m self")
  with assms(1) have s: "s = self" by (auto simp: keeps_self_def dest: spec[of _ self])
  show "snd (bind_m m f self) = self"
  proof (cases r)
    case (Inl e)
    with ms s show ?thesis by (simp add: bind_m_def)
  next
    case (Inr a)
    with ms s assms(2)[of a] show ?thesis by (simp add: bind_m_def keeps_self_def)
  qed
qed

lemma fst_column: "fst (bind_m (attr data) (\<lambda>d. lift_m (column d k)) x) = column (data x) k"
  by (simp add: bind_m_def attr_def lift_m_def)

section \<open>The Xmu accessors\<close>

lemma six_entries:
  assumes "length r = 6"
  shows "r = [r ! 0, r ! 1, r ! 2, r ! 3, r ! 4, r ! 5]"
proof -
  from assms obtain a b c d e f where "r = [a, b, c, d, e, f]"
    by (auto simp: length_Suc_conv eval_nat_numeral)
  then show ?thesis by simp
qed

text \<open>
  C2. On an object whose table has six columns, the properties \<open>energies\<close>,
  \<open>relative_energies\<close>, \<open>wavenumber\<close>, \<open>mu\<close>, \<open>mu0\<close> and \<open>chi\<close> return the columns
  0 to 5 of the table, in this order, and row \<open>i\<close> of the table is the list of their
  \<open>i\<close>-th entries.
\<close>

theorem Xmu_columns:
  assumes "data x = A2 6 rows" and "wf_ndarray (data x)"
  shows "\<exists>e re k m m0 c.
           e = map (\<lambda>r. r ! 0) rows \<and> re = map (\<lambda>r. r ! 1) rows \<and> k = map (\<lambda>r. r ! 2) rows
         \<and> m = map (\<lambda>r. r ! 3) rows \<and> m0 = map (\<lambda>r. r ! 4) rows \<and> c = map (\<lambda>r. r ! 5) rows
         \<and> fst (Xmu_energies x) = Inr (A1 e)
         \<and> fst (Xmu_relative_energies x) = Inr (A1 re)
         \<and> fst (Xmu_wavenumber x) = Inr (A1 k)
         \<and> fst (Xmu_mu x) = Inr (A1 m)
         \<and> fst (Xmu_mu0 x) = Inr (A1 m0)
         \<and> fst (Xmu_chi x) = Inr (A1 c)
         \<and> (\<forall>i<length rows. rows ! i = [e ! i, re ! i, k ! i, m ! i, m0 ! i, c ! i])"
proof -
  from assms have len: "\<forall>r\<in>set rows. length r = 6"
    by (simp add: list_all_iff)
  have tuple: "rows ! i = [rows ! i ! 0, rows ! i ! 1, rows ! i ! 2, rows ! i ! 3, rows ! i ! 4,
      rows ! i ! 5]" if "i < length rows" for i
    using that len by (intro six_entries) simp
  from assms(1) have cols: "fst (Xmu_energies x) = Inr (A1 (map (\<lambda>r. r ! 0) rows))"
    "fst (Xmu_relative_energies x) = Inr (A1 (map (\<lambda>r. r ! 1) rows))"
    "fst (Xmu_wavenumber x) = Inr (A1 (map (\<lambda>r. r ! 2) rows))"
    "fst (Xmu_mu x) = Inr (A1 (map (\<lambda>r. r ! 3) rows))"
    "fst (Xmu_mu0 x) = Inr (A1 (map (\<lambda>r. r ! 4) rows))"
    "fst (Xmu_chi x) = Inr (A1 (map (\<lambda>r. r ! 5) rows))"
    by (simp_all add: Xmu_energies_def Xmu_relative_energies_def Xmu_wavenumber_def Xmu_mu_def
        Xmu_mu0_def Xmu_chi_def fst_column)
  from cols tuple show ?thesis by simp
qed

theorem Xmu_columns_witness:
  "fst (Xmu_energies ex_xmu) = Inr (A1 [1, 7])
   \<and> fst (Xmu_relative_energies ex_xmu) = Inr (A1 [2, 8])
   \<and> fst (Xmu_wavenumber ex_xmu) = Inr (A1 [3, 9])
   \<and> fst (Xmu_mu ex_xmu) = Inr (A1 [4, 10])
   \<and> fst (Xmu_mu0 ex_xmu) = Inr (A1 [5, 11])
   \<and> fst (Xmu_chi ex_xmu) = Inr (A1 [6, 12])"
  using Xmu_columns [of ex_xmu "[[1, 2, 3, 4, 5, 6], [7, 8, 9, 10, 11, 12]]"]
  by (simp add: ex_xmu_def)

subsection \<open>The accessors leave the object as it is\<close>

lemma keeps_column: "keeps_self (bind_m (attr data) (\<lambda>d. lift_m (column d k)))"
  by (intro keeps_bind keeps_attr keeps_lift)

lemma keeps_energies: "keeps_self Xmu_energies"
  unfolding Xmu_energies_def by (rule keeps_column)
lemma keeps_relative_energies: "keeps_self Xmu_relative_energies"
  unfolding Xmu_relative_energies_def by (rule keeps_column)
lemma keeps_wavenumber: "keeps_self Xmu_wavenumber"
  unfolding Xmu_wavenumber_def by (rule keeps_column)
lemma keeps_mu: "keeps_self Xmu_mu"
  unfolding Xmu_mu_def by (rule keeps_column)
lemma keeps_mu0: "keeps_self Xmu_mu0"
  unfolding Xmu_mu0_def by (rule keeps_column)
lemma keeps_chi: "keeps_self Xmu_chi"
  unfolding Xmu_chi_def by (rule keeps_column)
lemma keeps_source: "keeps_self Xmu_source"
  unfolding Xmu_source_def by (intro keeps_bind keeps_attr keeps_return)
lemma keeps_calc: "keeps_self Xmu_calc"
  unfolding Xmu_calc_def by (intro keeps_bind keeps_attr keeps_return)
lemma keeps_edge: "keeps_self Xmu_edge"
  unfolding Xmu_edge_def by (intro keeps_bind keeps_attr keeps_lift)

lemma keeps_formula_read:
  "keeps_self (case r of Inl e \<Rightarrow> if e = IndexError then return_m d else lift_m (Inl e)
                        | Inr form \<Rightarrow> return_m form)"
  by (cases r) (simp_all add: keeps_return keeps_lift)

lemma keeps_material_formula: "keeps_self (Xmu_material_formula E)"
  unfolding Xmu_material_formula_def
  by (intro keeps_bind keeps_attr keeps_return keeps_formula_read)

lemmas keeps_Xmu = keeps_energies keeps_relative_energies keeps_wavenumber keeps_mu keeps_mu0
  keeps_chi keeps_source keeps_calc keeps_edge keeps_material_formula

lemma keeps_as_dict: "keeps_self (Xmu_as_dict E)"
  unfolding Xmu_as_dict_def
  by (intro keeps_bind keeps_attr keeps_return keeps_lift keeps_Xmu)

lemma keeps_to_string: "keeps_self (LDos_charge_transfer_to_string E)"
  unfolding LDos_charge_transfer_to_string_def
  by (intro keeps_bind keeps_attr keeps_lift)

text \<open>
  C8. No accessor modifies a field: after each of the Xmu properties \<open>energies\<close> to
  \<open>edge\<close>, after \<open>Xmu.as_dict\<close> and after \<open>LDos.charge_transfer_to_string\<close>, whether
  the call returns or raises, the object is the object before the call, so its fields
  (\<open>header\<close>, \<open>parameters\<close>, \<open>absorbing_atom\<close>, \<open>data\<close>; \<open>complete_dos\<close>,
  \<open>charge_transfer\<close>) are unchanged.
\<close>

theorem accessors_keep_object:
  "snd (Xmu_energies x) = x \<and> snd (Xmu_relative_energies x) = x \<and> snd (Xmu_wavenumber x) = x
   \<and> snd (Xmu_mu x) = x \<and> snd (Xmu_mu0 x) = x \<and> snd (Xmu_chi x) = x
   \<and> snd (Xmu_source x) = x \<and> snd (Xmu_calc x) = x \<and> snd (Xmu_material_formula E x) = x
   \<and> snd (Xmu_edge x) = x \<and> snd (Xmu_as_dict E x) = x
   \<and> snd (LDos_charge_transfer_to_string E' l) = l"
  by (simp add: keeps_Xmu [unfolded keeps_self_def] keeps_as_dict [unfolded keeps_self_def]
      keeps_to_string [unfolded keeps_self_def])

subsection \<open>material_formula\<close>

lemma fst_material_formula:
  "fst (Xmu_material_formula E x) =
     (case Header_formula E (header x) of
        Inl e \<Rightarrow> if e = IndexError then Inr (concat No_formula_provided) else Inl e
      | Inr form \<Rightarrow> Inr (concat form))"
  by (simp add: Xmu_material_formula_def bind_m_def attr_def return_m_def lift_m_def
      split: sum.splits)

lemma concat_No_formula: "concat No_formula_provided = ''No formula provided''"
  by (simp add: No_formula_provided_def)

text \<open>
  C10. \<open>Xmu.material_formula\<close> never raises \<open>IndexError\<close>: when reading the formula
  of the header raises \<open>IndexError\<close> it returns the string \<open>No formula provided\<close>, and
  when the header gives a formula it returns the formula joined into one string.
\<close>

theorem material_formula_no_IndexError:
  "fst (Xmu_material_formula E x) \<noteq> Inl IndexError
   \<and> (Header_formula E (header x) = Inl IndexError
        \<longrightarrow> fst (Xmu_material_formula E x) = Inr ''No formula provided'')
   \<and> (\<forall>form. Header_formula E (header x) = Inr form
        \<longrightarrow> fst (Xmu_material_formula E x) = Inr (concat form))"
  by (simp add: fst_material_formula concat_No_formula split: sum.splits)

theorem material_formula_no_IndexError_witness:
  "Header_formula ex_env (header (ex_xmu\<lparr>header := ex_header\<lparr>struct := []\<rparr>\<rparr>)) = Inl IndexError
   \<and> fst (Xmu_material_formula ex_env (ex_xmu\<lparr>header := ex_header\<lparr>struct := []\<rparr>\<rparr>))
       = Inr ''No formula provided''
   \<and> Header_formula ex_env (header ex_xmu) = Inr [''Co'', ''O'', ''O'']
   \<and> fst (Xmu_material_formula ex_env ex_xmu) = Inr ''CoOO''"
  using material_formula_no_IndexError [of ex_env "ex_xmu\<lparr>header := ex_header\<lparr>struct := []\<rparr>\<rparr>"]
    material_formula_no_IndexError [of ex_env ex_xmu]
  by (simp add: ex_env_def ex_xmu_def ex_header_def ex_sites_def)

subsection \<open>The round trip through as_dict\<close>

lemma bind_m_pair:
  assumes "m x = (r, x)" and "\<And>a. r = Inr a \<Longrightarrow> f a x = (g a, x)"
  shows "bind_m m f x = (bind_e r g, x)"
  using assms by (cases r) (simp_all add: bind_m_def)

lemma attr_run: "attr g x = (Inr (g x), x)"
  by (simp add: attr_def)

lemma column_run: "bind_m (attr data) (\<lambda>d. lift_m (column d k)) x = (column (data x) k, x)"
  by (simp add: bind_m_def attr_def lift_m_def)

lemma edge_run: "Xmu_edge x = (getitem (parameters x) ''EDGE'', x)"
  by (simp add: Xmu_edge_def bind_m_def attr_def lift_m_def)

lemma source_run: "Xmu_source x = (Inr (source (header x)), x)"
  by (simp add: Xmu_source_def bind_m_def attr_def return_m_def)

lemma calc_run:
  "Xmu_calc x = (Inr (if parameters x ''XANES'' \<noteq> None then ''XANES'' else ''EXAFS''), x)"
  by (simp add: Xmu_calc_def bind_m_def attr_def return_m_def)

lemma material_formula_run:
  "Xmu_material_formula E x = (fst (Xmu_material_formula E x), x)"
  using keeps_material_formula [of E] by (simp add: keeps_self_def prod_eq_iff)

lemma as_dict_run:
  "Xmu_as_dict E x =
     (bind_e (column (data x) 0) (\<lambda>v_energies.
      bind_e (column (data x) 3) (\<lambda>v_mu.
      bind_e (column (data x) 4) (\<lambda>v_mu0.
      bind_e (column (data x) 5) (\<lambda>v_chi.
      bind_e (Inr (absorbing_atom x)) (\<lambda>v_atom.
      bind_e (getitem (parameters x) ''EDGE'') (\<lambda>v_edge.
      bind_e (Inr (source (header x))) (\<lambda>v_source.
      bind_e (Inr (if parameters x ''XANES'' \<noteq> None then ''XANES'' else ''EXAFS'')) (\<lambda>v_calc.
      bind_e (fst (Xmu_material_formula E x)) (\<lambda>v_formula.
      bind_e (Inr (header x)) (\<lambda>h.
      bind_e (Header_as_dict E h) (\<lambda>v_header.
      bind_e (Inr (parameters x)) (\<lambda>v_tags.
      bind_e (Inr (absorbing_atom x)) (\<lambda>v_c_atom.
      bind_e (Inr (data x)) (\<lambda>d.
        Inr \<lparr>k_module = ''pymatgen.io.feff.outputs'', k_class = ''Xmu'',
             k_energies = v_energies, k_mu = tolist v_mu, k_mu0 = tolist v_mu0,
             k_chi = tolist v_chi, k_atom = v_atom, k_edge = v_edge,
             k_source = v_source, k_calc = v_calc, k_formula = v_formula,
             k_HEADER = v_header, k_TAGS = v_tags, k_c_atom = v_c_atom,
             k_xmu = tolist d\<rparr>)))))))))))))), x)"
  unfolding Xmu_as_dict_def Xmu_energies_def Xmu_mu_def Xmu_mu0_def Xmu_chi_def
  apply (rule bind_m_pair [OF column_run])
  apply (rule bind_m_pair [OF column_run])
  apply (rule bind_m_pair [OF column_run])
  apply (rule bind_m_pair [OF column_run])
  apply (rule bind_m_pair [OF attr_run])
  apply (rule bind_m_pair [OF edge_run])
  apply (rule bind_m_pair [OF source_run])
  apply (rule bind_m_pair [OF calc_run])
  apply (rule bind_m_pair [OF material_formula_run])
  apply (rule bind_m_pair [OF attr_run])
  apply (rule bind_m_pair [where r = "Header_as_dict E _"])
   apply (simp add: lift_m_def)
  apply (rule bind_m_pair [OF attr_run])
  apply (rule bind_m_pair [OF attr_run])
  apply (rule bind_m_pair [OF attr_run])
  apply (simp add: return_m_def)
  done

lemma fst_as_dict:
  "fst (Xmu_as_dict E x) =
     bind_e (column (data x) 0) (\<lambda>v_energies.
     bind_e (column (data x) 3) (\<lambda>v_mu.
     bind_e (column (data x) 4) (\<lambda>v_mu0.
     bind_e (column (data x) 5) (\<lambda>v_chi.
     bind_e (getitem (parameters x) ''EDGE'') (\<lambda>v_edge.
     bind_e (fst (Xmu_material_formula E x)) (\<lambda>v_formula.
     bind_e (Header_as_dict E (header x)) (\<lambda>v_header.
       Inr \<lparr>k_module = ''pymatgen.io.feff.outputs'', k_class = ''Xmu'',
            k_energies = v_energies, k_mu = tolist v_mu, k_mu0 = tolist v_mu0,
            k_chi = tolist v_chi, k_atom = absorbing_atom x, k_edge = v_edge,
            k_source = source (header x),
            k_calc = (if parameters x ''XANES'' \<noteq> None then ''XANES'' else ''EXAFS''),
            k_formula = v_formula,
            k_HEADER = v_header, k_TAGS = parameters x, k_c_atom = absorbing_atom x,
            k_xmu = tolist (data x)\<rparr>)))))))"
  by (simp add: as_dict_run)

lemma np_array_tolist:
  assumes "wf_ndarray a" and "len_nd a \<noteq> Inr 0"
  shows "np_array (tolist a) = Inr a"
proof (cases a)
  case (A2 c rows)
  with assms obtain r rs where rows: "rows = r # rs" by (cases rows) auto
  with A2 assms(1) show ?thesis by (simp add: list_all_iff)
qed simp_all

text \<open>
  C4, as the code has it. When \<open>x.as_dict()\<close> returns and the table of \<open>x\<close> has at
  least one row, \<open>Xmu.from_dict(x.as_dict())\<close> raises only what \<open>Header.from_dict\<close>
  raises on the header dictionary, and otherwise it is an object with the parameters,
  the absorbing atom and the table of \<open>x\<close>.
\<close>

theorem Xmu_roundtrip_lossless:
  assumes "fst (Xmu_as_dict E x) = Inr d" and "wf_ndarray (data x)" and "len_nd (data x) \<noteq> Inr 0"
  shows "Xmu_roundtrip E x =
           bind_e (Header_from_dict E (k_HEADER d))
             (\<lambda>h. Inr \<lparr>header = h, parameters = parameters x,
                        absorbing_atom = absorbing_atom x, data = data x\<rparr>)"
proof -
  from assms(1) have "k_xmu d = tolist (data x)" "k_TAGS d = parameters x"
    "k_c_atom d = absorbing_atom x"
    by (auto simp: fst_as_dict bind_e_eq_Inr)
  with assms show ?thesis
    by (simp add: Xmu_roundtrip_def Xmu_from_dict_def np_array_tolist)
qed

lemma ex_as_dict: "\<exists>d. fst (Xmu_as_dict ex_env ex_xmu) = Inr d \<and> k_HEADER d = ex_header"
  by (simp add: fst_as_dict fst_material_formula ex_env_def ex_xmu_def getitem_def)

theorem Xmu_roundtrip_lossless_witness: "Xmu_roundtrip ex_env ex_xmu = Inr ex_xmu"
proof -
  from ex_as_dict obtain d where d: "fst (Xmu_as_dict ex_env ex_xmu) = Inr d" "k_HEADER d = ex_header"
    by blast
  have "wf_ndarray (data ex_xmu)" "len_nd (data ex_xmu) \<noteq> Inr 0"
    by (simp_all add: ex_xmu_def)
  from Xmu_roundtrip_lossless [OF d(1) this] d(2) show ?thesis
    by (simp add: ex_env_def ex_xmu_def)
qed

text \<open>
  C4 as stated fails on two objects. With parameters that have no \<open>EDGE\<close> entry,
  \<open>as_dict\<close> raises \<open>KeyError\<close> and nothing is reconstructed; with a table of six
  columns and no row, the reconstructed table is the one-dimensional empty array.
\<close>

theorem Xmu_roundtrip_counterexample:
  "Xmu_roundtrip ex_env ex_xmu_hole = Inl KeyError
   \<and> Xmu_roundtrip ex_env ex_xmu_norow = Inr (ex_xmu\<lparr>data := A1 []\<rparr>)
   \<and> data ex_xmu_norow = A2 6 []"
  by (simp add: Xmu_roundtrip_def fst_as_dict fst_material_formula Xmu_from_dict_def
      ex_env_def ex_xmu_def ex_xmu_hole_def ex_xmu_norow_def getitem_def)

section \<open>LDos.from_file\<close>

lemma mapM_e_Inr_iff:
  "mapM_e f xs = Inr ys \<longleftrightarrow> length ys = length xs \<and> (\<forall>i<length xs. f (xs ! i) = Inr (ys ! i))"
proof (induction xs arbitrary: ys)
  case Nil
  then show ?case by auto
next
  case (Cons x xs)
  show ?case
  proof (cases ys)
    case Nil
    then show ?thesis by (auto simp: bind_e_eq_Inr)
  next
    case (Cons y ys')
    have "(\<forall>i<Suc (length xs). f ((x # xs) ! i) = Inr ((y # ys') ! i))
        \<longleftrightarrow> f x = Inr y \<and> (\<forall>i<length xs. f (xs ! i) = Inr (ys' ! i))"
      by (auto simp: nth_Cons split: nat.splits)
    with Cons Cons.IH [of ys'] show ?thesis
      by (auto simp: bind_e_eq_Inr)
  qed
qed

lemma mapM_e_upt:
  "mapM_e f [0..<n] = Inr ys \<longleftrightarrow> length ys = n \<and> (\<forall>i<n. f i = Inr (ys ! i))"
  by (auto simp: mapM_e_Inr_iff)

lemma nth_e_Inr: "nth_e xs i = Inr x \<longleftrightarrow> i < length xs \<and> x = xs ! i"
  by (auto simp: nth_e_def)

lemma getitem_Inr: "getitem d k = Inr v \<longleftrightarrow> d k = Some v"
  by (simp add: getitem_def split: option.splits)

lemma item2_Inr:
  "item2 a i k = Inr v \<longleftrightarrow>
     (\<exists>c rows. a = A2 c rows \<and> i < length rows \<and> k < length (rows ! i) \<and> v = rows ! i ! k)"
  by (cases a) (auto simp: item2_def bind_e_eq_Inr)

lemma density_Inr:
  "density ldos p k n = Inr ds \<longleftrightarrow>
     length ds = n \<and> (\<forall>j<n. \<exists>a. ldos p = Some a \<and> item2 a j k = Inr (ds ! j))"
  by (simp add: density_def mapM_e_upt bind_e_eq_Inr getitem_Inr)

lemma site_pdos_Inr:
  assumes "site_pdos ldos p n = Inr d"
  shows "\<exists>d0 d1 d2 d3. density ldos p 1 n = Inr d0 \<and> density ldos p 2 n = Inr d1
       \<and> density ldos p 3 n = Inr d2 \<and> density ldos p 4 n = Inr d3
       \<and> d = [Orbital_s \<mapsto> [Spin_up \<mapsto> d0], Orbital_py \<mapsto> [Spin_up \<mapsto> d1],
              Orbital_dxy \<mapsto> [Spin_up \<mapsto> d2], Orbital_f0 \<mapsto> [Spin_up \<mapsto> d3]]"
  using assms
  by (auto simp: site_pdos_def vorb_def forb_def bind_e_eq_Inr getitem_Inr Let_def numeral_2_eq_2
      numeral_3_eq_3 eval_nat_numeral)

lemma orbital_dict_apply:
  "orbital_dict d orb =
     (if orb \<in> {Orbital_s, Orbital_py, Orbital_dxy, Orbital_f0}
      then Some (case d orb of None \<Rightarrow> Map.empty | Some x \<Rightarrow> x) else None)"
  by (auto simp: orbital_dict_def vorb2_def)

lemma fold_upd_upt:
  fixes key :: "nat \<Rightarrow> 'k" and val :: "nat \<Rightarrow> 'v"
  shows "(\<forall>i<n. \<exists>i'<n. key i' = key i \<and> fold (\<lambda>i m. m(key i \<mapsto> val i)) [0..<n] m0 (key i) = Some (val i'))
       \<and> (\<forall>s. s \<notin> key ` {..<n} \<longrightarrow> fold (\<lambda>i m. m(key i \<mapsto> val i)) [0..<n] m0 s = m0 s)"
proof (induction n)
  case 0
  then show ?case by simp
next
  case (Suc n)
  let ?m = "fold (\<lambda>i m. m(key i \<mapsto> val i)) [0..<n] m0"
  have step: "fold (\<lambda>i m. m(key i \<mapsto> val i)) [0..<Suc n] m0 = ?m(key n \<mapsto> val n)"
    by simp
  show ?case
    unfolding step
  proof (intro conjI allI impI)
    fix i assume i: "i < Suc n"
    show "\<exists>i'<Suc n. key i' = key i \<and> (?m(key n \<mapsto> val n)) (key i) = Some (val i')"
    proof (cases "key i = key n")
      case True
      then show ?thesis by (intro exI [of _ n]) simp
    next
      case False
      with i have "i < n" by (cases "i = n") auto
      with Suc obtain i' where "i' < n" "key i' = key i" "?m (key i) = Some (val i')" by blast
      with False show ?thesis by (intro exI [of _ i']) simp
    qed
  next
    fix s assume "s \<notin> key ` {..<Suc n}"
    then have "s \<noteq> key n" "s \<notin> key ` {..<n}" by (auto simp: lessThan_Suc)
    with Suc have "?m s = m0 s" by blast
    with \<open>s \<noteq> key n\<close> show "(?m(key n \<mapsto> val n)) s = m0 s" by simp
  qed
qed

lemma make_pdoss_at:
  assumes "i < length pl" and "\<And>i'. i' < length pl \<Longrightarrow> st ! i' = st ! i \<Longrightarrow> pl ! i' = pl ! i"
  shows "make_pdoss st pl (st ! i) = Some (orbital_dict (pl ! i))"
proof -
  from fold_upd_upt [of "length pl" "\<lambda>i. st ! i" "\<lambda>i. orbital_dict (pl ! i)" Map.empty] assms(1)
  obtain i' where "i' < length pl" "st ! i' = st ! i"
    "make_pdoss st pl (st ! i) = Some (orbital_dict (pl ! i'))"
    unfolding make_pdoss_def by blast
  with assms(2) show ?thesis by simp
qed

lemma make_pdoss_Some:
  assumes "make_pdoss st pl site = Some om"
  shows "\<exists>i<length pl. om = orbital_dict (pl ! i)"
proof -
  from fold_upd_upt [of "length pl" "\<lambda>i. st ! i" "\<lambda>i. orbital_dict (pl ! i)" Map.empty]
  have a: "\<forall>i<length pl. \<exists>i'<length pl. st ! i' = st ! i \<and> make_pdoss st pl (st ! i) = Some (orbital_dict (pl ! i'))"
    and b: "\<forall>s. s \<notin> (\<lambda>i. st ! i) ` {..<length pl} \<longrightarrow> make_pdoss st pl s = None"
    unfolding make_pdoss_def by auto
  from b assms obtain i where i: "i < length pl" "site = st ! i" by force
  with a assms show ?thesis by force
qed

lemma load_ldos_fold:
  assumes "foldM_e (\<lambda>i ldos. bind_e (loadtxt E (ldos_path fn i)) (\<lambda>a. Inr (ldos(int i \<mapsto> a))))
             xs m0 = Inr m"
  shows "(\<forall>i\<in>set xs. \<exists>a. loadtxt E (ldos_path fn i) = Inr a \<and> m (int i) = Some a)
       \<and> (\<forall>k. k \<notin> int ` set xs \<longrightarrow> m k = m0 k)"
  using assms
proof (induction xs arbitrary: m0)
  case Nil
  then show ?case by simp
next
  case (Cons x xs)
  obtain a where a: "loadtxt E (ldos_path fn x) = Inr a"
    using Cons.prems by (cases "loadtxt E (ldos_path fn x)") simp_all
  with Cons.prems
  have rest: "foldM_e (\<lambda>i ldos. bind_e (loadtxt E (ldos_path fn i)) (\<lambda>a. Inr (ldos(int i \<mapsto> a))))
                 xs (m0(int x \<mapsto> a)) = Inr m"
    by (simp del: fun_upd_apply)
  note IH = Cons.IH [OF rest]
  have "\<exists>b. loadtxt E (ldos_path fn x) = Inr b \<and> m (int x) = Some b"
  proof (cases "x \<in> set xs")
    case True
    with IH show ?thesis by blast
  next
    case False
    then have "int x \<notin> int ` set xs" by auto
    with IH have "m (int x) = (m0(int x \<mapsto> a)) (int x)" by blast
    with a show ?thesis by simp
  qed
  moreover have "m k = m0 k" if "k \<notin> int ` set (x # xs)" for k
  proof -
    from that have "k \<notin> int ` set xs" "k \<noteq> int x" by auto
    with IH have "m k = (m0(int x \<mapsto> a)) k" by blast
    with \<open>k \<noteq> int x\<close> show ?thesis by simp
  qed
  ultimately show ?case using IH by auto
qed

lemma load_ldos_Inr:
  assumes "load_ldos E fn n = Inr ldos"
  shows "(\<forall>i. 1 \<le> i \<and> i \<le> n \<longrightarrow> (\<exists>a. loadtxt E (ldos_path fn i) = Inr a \<and> ldos (int i) = Some a))
       \<and> (\<forall>k a. ldos k = Some a \<longrightarrow> 1 \<le> k \<and> k \<le> int n \<and> loadtxt E (ldos_path fn (nat k)) = Inr a)"
proof -
  from load_ldos_fold [OF assms [unfolded load_ldos_def]]
  have a: "\<And>i. i \<in> set [1..<n + 1] \<Longrightarrow> \<exists>a. loadtxt E (ldos_path fn i) = Inr a \<and> ldos (int i) = Some a"
    and b: "\<And>k. k \<notin> int ` set [1..<n + 1] \<Longrightarrow> ldos k = None"
    by blast+
  show ?thesis
  proof (rule conjI; intro allI impI)
    fix i assume "1 \<le> i \<and> i \<le> n"
    then have "i \<in> set [1..<n + 1]" by auto
    then show "\<exists>a. loadtxt E (ldos_path fn i) = Inr a \<and> ldos (int i) = Some a" by (rule a)
  next
    fix k a' assume k: "ldos k = Some a'"
    with b [of k] have "k \<in> int ` set [1..<n + 1]" by auto
    then obtain i where i: "k = int i" "i \<in> set [1..<n + 1]" by auto
    from a [OF i(2)] k i(1) have "loadtxt E (ldos_path fn i) = Inr a'" by auto
    moreover from i(2) have "1 \<le> i" "i \<le> n" by auto
    ultimately show "1 \<le> k \<and> k \<le> int n \<and> loadtxt E (ldos_path fn (nat k)) = Inr a'"
      using i(1) by simp
  qed
qed

lemma add_density_fold:
  "m \<le> length t \<Longrightarrow>
     length (fold (\<lambda>j t. t[j := t ! j + d ! j]) [0..<m] t) = length t
   \<and> (\<forall>j<length t. fold (\<lambda>j t. t[j := t ! j + d ! j]) [0..<m] t ! j
                     = (if j < m then t ! j + d ! j else t ! j))"
proof (induction m)
  case 0
  then show ?case by simp
next
  case (Suc m)
  then show ?case by (auto simp: nth_list_update)
qed

lemma add_density_nth:
  assumes "length t = n"
  shows "length (add_density d n t) = n" and "j < n \<Longrightarrow> add_density d n t ! j = t ! j + d ! j"
  using add_density_fold [of n t d] assms by (simp_all add: add_density_def)

lemma site_tdos_Inr:
  assumes "site_tdos ldos p n t = Inr t'" and "length t = n"
  shows "\<exists>d0 d1 d2 d3. density ldos p 1 n = Inr d0 \<and> density ldos p 2 n = Inr d1
       \<and> density ldos p 3 n = Inr d2 \<and> density ldos p 4 n = Inr d3 \<and> length t' = n
       \<and> (\<forall>j<n. t' ! j = foldl (+) (t ! j) [d0 ! j, d1 ! j, d2 ! j, d3 ! j])"
proof -
  from assms(1) obtain d0 d1 d2 d3 where d: "density ldos p 1 n = Inr d0"
    "density ldos p 2 n = Inr d1" "density ldos p 3 n = Inr d2" "density ldos p 4 n = Inr d3"
    and t': "t' = add_density d3 n (add_density d2 n (add_density d1 n (add_density d0 n t)))"
    by (auto simp: site_tdos_def forb_def bind_e_eq_Inr numeral_2_eq_2 numeral_3_eq_3
        eval_nat_numeral)
  from assms(2) t' have "length t' = n" "\<forall>j<n. t' ! j = foldl (+) (t ! j) [d0 ! j, d1 ! j, d2 ! j, d3 ! j]"
    by (simp_all add: add_density_nth)
  with d show ?thesis by blast
qed

lemma total_tdos_fold:
  assumes "foldM_e (\<lambda>i t. bind_e (getitem (map_of pd) (symbol (st ! i)))
                              (\<lambda>p. site_tdos ldos p n t)) xs t = Inr t'"
    and "length t = n"
  shows "length t' = n
       \<and> (\<forall>j<n. t' ! j = foldl (+) (t ! j)
             (concat (map (\<lambda>i. site_terms ldos (the (map_of pd (symbol (st ! i)))) n j) xs)))"
  using assms
proof (induction xs arbitrary: t)
  case Nil
  then show ?case by simp
next
  case (Cons x xs)
  let ?step = "\<lambda>i t. bind_e (getitem (map_of pd) (symbol (st ! i))) (\<lambda>p. site_tdos ldos p n t)"
  from Cons.prems(1) obtain t1 where t1: "?step x t = Inr t1" "foldM_e ?step xs t1 = Inr t'"
    by (auto simp: bind_e_eq_Inr)
  from t1(1) obtain p where p: "map_of pd (symbol (st ! x)) = Some p" "site_tdos ldos p n t = Inr t1"
    by (auto simp: bind_e_eq_Inr getitem_Inr)
  from site_tdos_Inr [OF p(2) Cons.prems(2)]
  have len1: "length t1 = n" and t1j: "\<forall>j<n. t1 ! j = foldl (+) (t ! j) (site_terms ldos p n j)"
    by (auto simp: site_terms_def eval_nat_numeral)
  from Cons.IH [OF t1(2) len1] t1j p(1) show ?case by simp
qed

lemma total_tdos_Inr:
  assumes "total_tdos ldos pd st nsites n = Inr t"
  shows "length t = n
       \<and> (\<forall>j<n. t ! j = foldl (+) 0
             (concat (map (\<lambda>i. site_terms ldos (the (map_of pd (symbol (st ! i)))) n j) [0..<nsites])))"
  using total_tdos_fold [OF assms [unfolded total_tdos_def]] by simp

lemma all_pdos_Inr:
  assumes "all_pdos ldos pd st nsites n = Inr pl"
  shows "length pl = nsites
       \<and> (\<forall>i<nsites. \<exists>p. map_of pd (symbol (st ! i)) = Some p \<and> site_pdos ldos p n = Inr (pl ! i))"
  using assms by (auto simp: all_pdos_def mapM_e_upt bind_e_eq_Inr getitem_Inr)

lemma LDos_from_file_Inr:
  assumes "LDos_from_file E f1 f2 = Inr obj"
  obtains hs h ps dicts ef ldos n es pl td ct where
    "header_string_from_file E f1 = Inr hs" "Header_from_string E hs = Inr h"
    "pot_string_from_file E f1 = Inr ps" "pot_dict_from_string E ps = Inr dicts"
    "read_efermi E f2 = Inr ef" "load_ldos E f2 (length (fst dicts)) = Inr ldos"
    "bind_e (getitem ldos 1) len_nd = Inr n"
    "mapM_e (\<lambda>i. bind_e (getitem ldos 1) (\<lambda>a. item2 a i 0)) [0..<n] = Inr es"
    "all_pdos ldos (fst dicts) (struct h) (length (struct h)) n = Inr pl"
    "total_tdos ldos (fst dicts) (struct h) (length (struct h)) n = Inr td"
    "LDos_charge_transfer_from_file E f1 f2 = Inr ct"
    "obj = \<lparr>complete_dos = CompleteDos (struct h) (Dos ef es [Spin_up \<mapsto> td])
                              (make_pdoss (struct h) pl),
            charge_transfer = ct\<rparr>"
proof -
  from assms obtain hs where 1: "header_string_from_file E f1 = Inr hs"
    by (cases "header_string_from_file E f1") (simp_all add: LDos_from_file_def)
  from assms 1 obtain h where 2: "Header_from_string E hs = Inr h"
    by (cases "Header_from_string E hs") (simp_all add: LDos_from_file_def)
  from assms 1 2 obtain ps where 3: "pot_string_from_file E f1 = Inr ps"
    by (cases "pot_string_from_file E f1") (simp_all add: LDos_from_file_def)
  from assms 1 2 3 obtain dicts where 4: "pot_dict_from_string E ps = Inr dicts"
    by (cases "pot_dict_from_string E ps") (simp_all add: LDos_from_file_def)
  from assms 1 2 3 4 obtain ef where 5: "read_efermi E f2 = Inr ef"
    by (cases "read_efermi E f2") (simp_all add: LDos_from_file_def)
  from assms 1 2 3 4 5 obtain ldos where 6: "load_ldos E f2 (length (fst dicts)) = Inr ldos"
    by (cases "load_ldos E f2 (length (fst dicts))") (simp_all add: LDos_from_file_def)
  from assms 1 2 3 4 5 6 obtain n where 7: "bind_e (getitem ldos 1) len_nd = Inr n"
    by (cases "bind_e (getitem ldos 1) len_nd") (simp_all add: LDos_from_file_def)
  let ?es = "mapM_e (\<lambda>i. bind_e (getitem ldos 1) (\<lambda>a. item2 a i 0)) [0..<n]"
  from assms 1 2 3 4 5 6 7 obtain es where 8: "?es = Inr es"
    by (cases ?es) (simp_all add: LDos_from_file_def)
  let ?pl = "all_pdos ldos (fst dicts) (struct h) (length (struct h)) n"
  from assms 1 2 3 4 5 6 7 8 obtain pl where 9: "?pl = Inr pl"
    by (cases ?pl) (simp_all add: LDos_from_file_def)
  let ?td = "total_tdos ldos (fst dicts) (struct h) (length (struct h)) n"
  from assms 1 2 3 4 5 6 7 8 9 obtain td where 10: "?td = Inr td"
    by (cases ?td) (simp_all add: LDos_from_file_def Let_def)
  let ?ct = "LDos_charge_transfer_from_file E f1 f2"
  from assms 1 2 3 4 5 6 7 8 9 10 obtain ct where 11: "?ct = Inr ct"
    by (cases ?ct) (simp_all add: LDos_from_file_def Let_def)
  from assms 1 2 3 4 5 6 7 8 9 10 11
  have "obj = \<lparr>complete_dos = CompleteDos (struct h) (Dos ef es [Spin_up \<mapsto> td])
                              (make_pdoss (struct h) pl),
               charge_transfer = ct\<rparr>"
    by (simp add: LDos_from_file_def Let_def del: fun_upd_apply)
  with that 1 2 3 4 5 6 7 8 9 10 11 show thesis by blast
qed

lemma less_4_cases: "k < 4 \<Longrightarrow> k = 0 \<or> k = 1 \<or> k = 2 \<or> k = (3::nat)"
  by arith

lemma site_pdos_orbitals:
  assumes "site_pdos ldos p n = Inr d" and "k < 4"
  shows "\<exists>ds. density ldos p (k + 1) n = Inr ds \<and> d (map snd vorb ! k) = Some [Spin_up \<mapsto> ds]"
proof -
  from site_pdos_Inr [OF assms(1)] obtain d0 d1 d2 d3 where
    d: "density ldos p 1 n = Inr d0" "density ldos p 2 n = Inr d1"
      "density ldos p 3 n = Inr d2" "density ldos p 4 n = Inr d3"
      "d = [Orbital_s \<mapsto> [Spin_up \<mapsto> d0], Orbital_py \<mapsto> [Spin_up \<mapsto> d1],
            Orbital_dxy \<mapsto> [Spin_up \<mapsto> d2], Orbital_f0 \<mapsto> [Spin_up \<mapsto> d3]]"
    by blast
  from less_4_cases [OF assms(2)] d show ?thesis
    by (auto simp: vorb_def eval_nat_numeral)
qed

lemma pdoss_at_site:
  assumes pl: "all_pdos ldos pd st (length st) n = Inr pl" and i: "i < length st"
  shows "make_pdoss st pl (st ! i) = Some (orbital_dict (pl ! i))"
proof (rule make_pdoss_at)
  from all_pdos_Inr [OF pl] i show "i < length pl" by simp
next
  fix i' assume i': "i' < length pl" "st ! i' = st ! i"
  from all_pdos_Inr [OF pl] i obtain p where
    p: "map_of pd (symbol (st ! i)) = Some p" "site_pdos ldos p n = Inr (pl ! i)"
    by blast
  from all_pdos_Inr [OF pl] i'(1) obtain p' where
    p': "map_of pd (symbol (st ! i')) = Some p'" "site_pdos ldos p' n = Inr (pl ! i')"
    by auto
  from p p' i'(2) show "pl ! i' = pl ! i" by simp
qed

text \<open>
  C1. When \<open>LDos.from_file\<close> returns, the total density stored under \<open>Spin.up\<close> is,
  at every energy index \<open>j\<close>, the sum over the sites \<open>i\<close> of the structure and over the
  four orbitals (\<open>s\<close>, \<open>py\<close>, \<open>dxy\<close>, \<open>f0\<close>, for the characters s, p, d, f) of the
  partial density \<open>pd i k\<close> stored for the site and the orbital, and that partial density
  is the column \<open>k + 1\<close> read from the ldos file of the potential of the site. The sum is
  taken in the order of the loops, from \<open>0\<close>, so nothing is assumed of the addition.
\<close>

theorem total_dos_is_sum:
  assumes run: "LDos_from_file E filename1 filename2 = Inr obj"
    and ps: "pot_string_from_file E filename1 = Inr ps"
    and dicts: "pot_dict_from_string E ps = Inr dicts"
  shows "\<exists>tdos pd.
           densities (complete_dos obj) Spin_up = Some tdos
         \<and> (\<forall>i<length (dos_structure (complete_dos obj)). \<forall>k<4.
               partial_density (complete_dos obj) (dos_structure (complete_dos obj) ! i)
                 (map snd vorb ! k) Spin_up = Some (pd i k)
             \<and> length (pd i k) = length tdos
             \<and> (\<forall>j<length tdos. \<exists>p a.
                   map_of (fst dicts) (symbol (dos_structure (complete_dos obj) ! i)) = Some p
                 \<and> 1 \<le> p \<and> loadtxt E (ldos_path filename2 (nat p)) = Inr a
                 \<and> item2 a j (map snd forb ! k + 1) = Inr (pd i k ! j)))
         \<and> (\<forall>j<length tdos. tdos ! j = foldl (+) 0
               (concat (map (\<lambda>i. map (\<lambda>k. pd i k ! j) [0..<4])
                            [0..<length (dos_structure (complete_dos obj))])))"
proof -
  from run obtain hs h ps' dicts' ef ldos n es pl td ct where
    h: "header_string_from_file E filename1 = Inr hs" "Header_from_string E hs = Inr h"
    and ps': "pot_string_from_file E filename1 = Inr ps'" "pot_dict_from_string E ps' = Inr dicts'"
    and ldos: "load_ldos E filename2 (length (fst dicts')) = Inr ldos"
    and pl: "all_pdos ldos (fst dicts') (struct h) (length (struct h)) n = Inr pl"
    and td: "total_tdos ldos (fst dicts') (struct h) (length (struct h)) n = Inr td"
    and obj: "obj = \<lparr>complete_dos = CompleteDos (struct h) (Dos ef es [Spin_up \<mapsto> td])
                                        (make_pdoss (struct h) pl),
                     charge_transfer = ct\<rparr>"
    by (rule LDos_from_file_Inr) blast
  from ps ps' dicts have same: "dicts' = dicts" by simp
  let ?st = "struct h"
  let ?p = "\<lambda>i. the (map_of (fst dicts) (symbol (?st ! i)))"
  let ?pd = "\<lambda>i k. projr (density ldos (?p i) (k + 1) n)"
  from obj have st: "dos_structure (complete_dos obj) = ?st"
    and dens: "densities (complete_dos obj) Spin_up = Some td"
    and pdos: "pdos (complete_dos obj) = make_pdoss ?st pl"
    by (simp_all add: CompleteDos_def Dos_def)
  from total_tdos_Inr [OF td] same have len: "length td = n"
    and sum: "\<forall>j<n. td ! j = foldl (+) 0
        (concat (map (\<lambda>i. map (\<lambda>k. ?pd i k ! j) [0..<4]) [0..<length ?st]))"
    by (simp_all add: site_terms_def)
  have part: "partial_density (complete_dos obj) (?st ! i) (map snd vorb ! k) Spin_up = Some (?pd i k)
      \<and> length (?pd i k) = length td
      \<and> (\<forall>j<length td. \<exists>p a. map_of (fst dicts) (symbol (?st ! i)) = Some p
            \<and> 1 \<le> p \<and> loadtxt E (ldos_path filename2 (nat p)) = Inr a
            \<and> item2 a j (map snd forb ! k + 1) = Inr (?pd i k ! j))"
    if i: "i < length ?st" and k: "k < 4" for i k
  proof -
    from all_pdos_Inr [OF pl] i same obtain p where
      p: "map_of (fst dicts) (symbol (?st ! i)) = Some p" "site_pdos ldos p n = Inr (pl ! i)"
      by auto
    from site_pdos_orbitals [OF p(2) k] obtain ds where
      ds: "density ldos p (k + 1) n = Inr ds" "(pl ! i) (map snd vorb ! k) = Some [Spin_up \<mapsto> ds]"
      by blast
    from p(1) ds(1) have pd: "?pd i k = ds" by simp
    from less_4_cases [OF k] have orb: "map snd vorb ! k \<in> {Orbital_s, Orbital_py, Orbital_dxy, Orbital_f0}"
      and col: "map snd forb ! k = k"
      by (auto simp: vorb_def forb_def)
    from pdoss_at_site [OF pl i] pdos ds(2) orb
    have 1: "partial_density (complete_dos obj) (?st ! i) (map snd vorb ! k) Spin_up = Some ds"
      by (simp add: partial_density_def orbital_dict_apply)
    from ds(1) have 2: "length ds = n"
      and 3: "\<forall>j<n. \<exists>a. ldos p = Some a \<and> item2 a j (k + 1) = Inr (ds ! j)"
      by (simp_all add: density_Inr)
    have 4: "\<exists>p' a. map_of (fst dicts) (symbol (?st ! i)) = Some p'
            \<and> 1 \<le> p' \<and> loadtxt E (ldos_path filename2 (nat p')) = Inr a
            \<and> item2 a j (map snd forb ! k + 1) = Inr (ds ! j)" if "j < n" for j
    proof -
      from 3 that obtain a where a: "ldos p = Some a" "item2 a j (k + 1) = Inr (ds ! j)" by blast
      from load_ldos_Inr [OF ldos] a(1) have "1 \<le> p" "loadtxt E (ldos_path filename2 (nat p)) = Inr a"
        by blast+
      with p(1) a(2) col show ?thesis by auto
    qed
    from 1 2 4 pd len show ?thesis by simp
  qed
  from dens part sum len st show ?thesis
    by (intro exI [of _ td] exI [of _ ?pd]) simp
qed

lemma str_nat_1: "str_nat (Suc 0) = ''1''"
  by code_simp

lemma ldos_path_1: "ldos_path f (Suc 0) = f @ ''01.dat''"
  by (simp add: ldos_path_def str_nat_1)

lemma convert_row_Inr:
  "convert_row conv ts = Inr r \<longleftrightarrow>
     length r = length ts \<and> (\<forall>t<length ts. conv (ts ! t) = Some (r ! t))"
  by (auto simp: convert_row_def mapM_e_Inr_iff split: option.splits)

lemma loadtxt_rows_Inr:
  assumes "loadtxt_rows conv ls = Inr rows"
  shows "length rows = length (data_lines ls)"
    and "\<And>i. i < length rows \<Longrightarrow> length (rows ! i) = length (data_lines ls ! i)"
    and "\<And>i t. i < length rows \<Longrightarrow> t < length (rows ! i) \<Longrightarrow>
           conv (data_lines ls ! i ! t) = Some (rows ! i ! t)"
    and "\<And>r. r \<in> set rows \<Longrightarrow> r \<noteq> [] \<and> length r = length (hd rows)"
proof -
  from assms obtain rows0 where m0: "mapM_e (convert_row conv) (data_lines ls) = Inr rows0"
    and c: "(case rows0 of [] \<Rightarrow> Inr []
             | r # rs \<Rightarrow> if list_all (\<lambda>q. length q = length r) rs then Inr rows0
                        else Inl ValueError) = Inr rows"
    by (auto simp: loadtxt_rows_def bind_e_eq_Inr)
  from c have eq: "rows = rows0" and same: "\<And>r. r \<in> set rows \<Longrightarrow> length r = length (hd rows)"
    by (cases rows0; auto simp: list_all_iff split: if_splits)+
  from m0 eq have m: "mapM_e (convert_row conv) (data_lines ls) = Inr rows" by simp
  from m have len: "length rows = length (data_lines ls)"
    and row: "\<forall>i<length (data_lines ls). convert_row conv (data_lines ls ! i) = Inr (rows ! i)"
    by (simp_all add: mapM_e_Inr_iff)
  show "length rows = length (data_lines ls)" by (rule len)
  show l: "length (rows ! i) = length (data_lines ls ! i)" if "i < length rows" for i
    using row that len by (simp add: convert_row_Inr)
  show "conv (data_lines ls ! i ! t) = Some (rows ! i ! t)"
    if "i < length rows" "t < length (rows ! i)" for i t
    using row that len by (simp add: convert_row_Inr)
  show "r \<noteq> [] \<and> length r = length (hd rows)" if r: "r \<in> set rows" for r
  proof -
    from r obtain i where i: "i < length rows" "r = rows ! i" by (auto simp: in_set_conv_nth)
    with len have "data_lines ls ! i \<in> set (data_lines ls)" by simp
    then have "data_lines ls ! i \<noteq> []" by (simp add: data_lines_def)
    with l [OF i(1)] i(2) same [OF r] show ?thesis by auto
  qed
qed

lemma squeeze_table:
  assumes len: "len_nd (squeeze rows) = Inr n"
    and items: "\<forall>i<n. item2 (squeeze rows) i 0 = Inr (es ! i)"
    and ne: "\<And>r. r \<in> set rows \<Longrightarrow> r \<noteq> []"
    and es: "length es = n"
  shows "n = length rows \<and> es = map (\<lambda>r. r ! 0) rows"
proof (cases "\<exists>c. squeeze rows = A2 c rows")
  case True
  then obtain c where c: "squeeze rows = A2 c rows" by blast
  with len have n: "n = length rows" by simp
  from items c n have "\<forall>i<length rows. es ! i = rows ! i ! 0"
    by (auto simp: item2_Inr)
  with n es show ?thesis by (auto intro: nth_equalityI)
next
  case False
  then have "\<exists>x. squeeze rows = A0 x \<or> (\<exists>xs. squeeze rows = A1 xs \<and> (rows = [] \<longrightarrow> xs = []))"
    by (auto simp: squeeze_def split: list.splits)
  with len obtain xs where xs: "squeeze rows = A1 xs" "rows = [] \<longrightarrow> xs = []" "n = length xs"
    by auto
  have "n = 0"
  proof (rule ccontr)
    assume "n \<noteq> 0"
    with items have "item2 (squeeze rows) 0 0 = Inr (es ! 0)" by simp
    with xs(1) show False by (simp add: item2_Inr)
  qed
  with xs(1,3) have "squeeze rows = A1 []" by simp
  with ne have "rows = []"
    by (auto simp: squeeze_def split: list.splits if_splits)
  with \<open>n = 0\<close> es show ?thesis by simp
qed

lemma first_table:
  assumes ldos: "load_ldos E f2 npot = Inr ldos"
    and n: "bind_e (getitem ldos 1) len_nd = Inr n"
    and es: "mapM_e (\<lambda>i. bind_e (getitem ldos 1) (\<lambda>a. item2 a i 0)) [0..<n] = Inr es"
  shows "\<exists>lines rows. files E (f2 @ ''01.dat'') = Some lines
       \<and> loadtxt_rows (floatconv E) lines = Inr rows \<and> n = length rows
       \<and> es = map (\<lambda>r. r ! 0) rows"
proof -
  from n obtain a where a: "ldos 1 = Some a" "len_nd a = Inr n"
    by (auto simp: bind_e_eq_Inr getitem_Inr)
  from load_ldos_Inr [OF ldos] a(1) have "loadtxt E (ldos_path f2 (nat 1)) = Inr a" by blast
  then have "loadtxt E (f2 @ ''01.dat'') = Inr a" by (simp add: ldos_path_1)
  then obtain lines rows where lines: "files E (f2 @ ''01.dat'') = Some lines"
    and rows: "loadtxt_rows (floatconv E) lines = Inr rows" and sq: "a = squeeze rows"
    by (auto simp: loadtxt_def readlines_def bind_e_eq_Inr split: option.splits)
  from es a(1) have "length es = n" "\<forall>i<n. item2 a i 0 = Inr (es ! i)"
    by (simp_all add: mapM_e_upt getitem_def)
  with squeeze_table [of rows n es] a(2) sq loadtxt_rows_Inr(4) [OF rows]
  have "n = length rows \<and> es = map (\<lambda>r. r ! 0) rows" by simp
  with lines rows show ?thesis by blast
qed

lemma pdos_entry:
  assumes pl: "all_pdos ldos pd st nsites n = Inr pl"
    and om: "make_pdoss st pl site = Some om" and sm: "om orb = Some sm"
  shows "\<exists>ds. sm = [Spin_up \<mapsto> ds] \<and> length ds = n"
proof -
  from make_pdoss_Some [OF om] obtain i where i: "i < length pl" "om = orbital_dict (pl ! i)"
    by blast
  from all_pdos_Inr [OF pl] i(1) obtain p where p: "site_pdos ldos p n = Inr (pl ! i)"
    by auto
  from site_pdos_Inr [OF p] obtain d0 d1 d2 d3 where
    d: "density ldos p 1 n = Inr d0" "density ldos p 2 n = Inr d1"
      "density ldos p 3 n = Inr d2" "density ldos p 4 n = Inr d3"
      "pl ! i = [Orbital_s \<mapsto> [Spin_up \<mapsto> d0], Orbital_py \<mapsto> [Spin_up \<mapsto> d1],
                 Orbital_dxy \<mapsto> [Spin_up \<mapsto> d2], Orbital_f0 \<mapsto> [Spin_up \<mapsto> d3]]"
    by blast
  from d(1-4) have "length d0 = n" "length d1 = n" "length d2 = n" "length d3 = n"
    by (simp_all add: density_Inr)
  with sm i(2) d(5) show ?thesis
    by (auto simp: orbital_dict_apply split: if_splits)
qed

text \<open>
  C3. When \<open>LDos.from_file\<close> returns, every density mapping it has produced, the
  total one and every partial one of a site and an orbital, has exactly the one key
  \<open>Spin.up\<close>; \<open>Spin.down\<close> is never produced.
\<close>

theorem only_spin_up:
  assumes "LDos_from_file E filename1 filename2 = Inr obj"
  shows "dom (densities (complete_dos obj)) = {Spin_up}
       \<and> (\<forall>site om orb sm. pdos (complete_dos obj) site = Some om \<longrightarrow> om orb = Some sm
            \<longrightarrow> dom sm = {Spin_up})"
proof -
  from assms obtain hs h ps dicts ef ldos n es pl td ct where
    h: "Header_from_string E hs = Inr h" and
    dicts: "pot_dict_from_string E ps = Inr dicts" and
    pl: "all_pdos ldos (fst dicts) (struct h) (length (struct h)) n = Inr pl"
    and obj: "obj = \<lparr>complete_dos = CompleteDos (struct h) (Dos ef es [Spin_up \<mapsto> td])
                                        (make_pdoss (struct h) pl),
                     charge_transfer = ct\<rparr>"
    by (rule LDos_from_file_Inr) blast
  from obj have "dom (densities (complete_dos obj)) = {Spin_up}"
    by (simp add: CompleteDos_def Dos_def)
  moreover have "dom sm = {Spin_up}"
    if "pdos (complete_dos obj) site = Some om" "om orb = Some sm" for site om orb sm
  proof -
    from that(1) obj have "make_pdoss (struct h) pl site = Some om"
      by (simp add: CompleteDos_def)
    from pdos_entry [OF pl this that(2)] show ?thesis by (auto split: if_splits)
  qed
  ultimately show ?thesis by blast
qed

text \<open>
  C9. When \<open>LDos.from_file\<close> returns, the list of energies, the total density and
  every partial density list have the same length: the number of rows of the table in
  the first numbered file, \<^verbatim>\<open>ldos01.dat\<close>, which is the number of its data lines.
\<close>

theorem equal_lengths:
  assumes "LDos_from_file E filename1 filename2 = Inr obj"
  shows "\<exists>lines rows. files E (filename2 @ ''01.dat'') = Some lines
       \<and> loadtxt_rows (floatconv E) lines = Inr rows
       \<and> length rows = length (data_lines lines)
       \<and> length (energies (complete_dos obj)) = length rows
       \<and> (\<exists>tdos. densities (complete_dos obj) Spin_up = Some tdos \<and> length tdos = length rows)
       \<and> (\<forall>site orb sp ds. partial_density (complete_dos obj) site orb sp = Some ds
            \<longrightarrow> length ds = length rows)"
proof -
  from assms obtain hs h ps dicts ef ldos n es pl td ct where
    h: "Header_from_string E hs = Inr h" and
    dicts: "pot_dict_from_string E ps = Inr dicts" and
    ldos: "load_ldos E filename2 (length (fst dicts)) = Inr ldos"
    and n: "bind_e (getitem ldos 1) len_nd = Inr n"
    and es: "mapM_e (\<lambda>i. bind_e (getitem ldos 1) (\<lambda>a. item2 a i 0)) [0..<n] = Inr es"
    and pl: "all_pdos ldos (fst dicts) (struct h) (length (struct h)) n = Inr pl"
    and td: "total_tdos ldos (fst dicts) (struct h) (length (struct h)) n = Inr td"
    and obj: "obj = \<lparr>complete_dos = CompleteDos (struct h) (Dos ef es [Spin_up \<mapsto> td])
                                        (make_pdoss (struct h) pl),
                     charge_transfer = ct\<rparr>"
    by (rule LDos_from_file_Inr) blast
  from first_table [OF ldos n es] obtain lines rows where
    lines: "files E (filename2 @ ''01.dat'') = Some lines"
    and rows: "loadtxt_rows (floatconv E) lines = Inr rows"
    and len: "n = length rows" "es = map (\<lambda>r. r ! 0) rows"
    by blast
  from obj len have 1: "length (energies (complete_dos obj)) = length rows"
    by (simp add: CompleteDos_def Dos_def)
  from obj total_tdos_Inr [OF td] len(1)
  have 2: "\<exists>tdos. densities (complete_dos obj) Spin_up = Some tdos \<and> length tdos = length rows"
    by (simp add: CompleteDos_def Dos_def)
  have 3: "length ds = length rows"
    if "partial_density (complete_dos obj) site orb sp = Some ds" for site orb sp ds
  proof -
    from that obj obtain om sm where om: "make_pdoss (struct h) pl site = Some om"
      and sm: "om orb = Some sm" and ds: "sm sp = Some ds"
      by (auto simp: partial_density_def CompleteDos_def bind_eq_Some_conv)
    from pdos_entry [OF pl om sm] ds len(1) show ?thesis
      by (auto split: if_splits)
  qed
  from lines rows loadtxt_rows_Inr(1) [OF rows] 1 2 3 show ?thesis by blast
qed

text \<open>
  C6. When \<open>LDos.from_file\<close> returns, the Fermi energy of the result is the float of
  the fifth token of the first line of \<^verbatim>\<open>ldos00.dat\<close>, and the energies are, entry for
  entry, the converted first tokens of the data lines of \<^verbatim>\<open>ldos01.dat\<close>.
\<close>

theorem fermi_and_energies:
  assumes "LDos_from_file E filename1 filename2 = Inr obj"
  shows "\<exists>lines0 lines1.
           files E (filename2 @ ''00.dat'') = Some lines0
         \<and> 0 < length lines0 \<and> 4 < length (split (lines0 ! 0))
         \<and> py_float E (split (lines0 ! 0) ! 4) = Some (efermi (complete_dos obj))
         \<and> files E (filename2 @ ''01.dat'') = Some lines1
         \<and> map (\<lambda>ts. floatconv E (ts ! 0)) (data_lines lines1)
             = map Some (energies (complete_dos obj))"
proof -
  from assms obtain hs h ps dicts ef ldos n es pl td ct where
    h: "Header_from_string E hs = Inr h" and
    dicts: "pot_dict_from_string E ps = Inr dicts" and
    ef: "read_efermi E filename2 = Inr ef"
    and ldos: "load_ldos E filename2 (length (fst dicts)) = Inr ldos"
    and n: "bind_e (getitem ldos 1) len_nd = Inr n"
    and es: "mapM_e (\<lambda>i. bind_e (getitem ldos 1) (\<lambda>a. item2 a i 0)) [0..<n] = Inr es"
    and obj: "obj = \<lparr>complete_dos = CompleteDos (struct h) (Dos ef es [Spin_up \<mapsto> td])
                                        (make_pdoss (struct h) pl),
                     charge_transfer = ct\<rparr>"
    by (rule LDos_from_file_Inr) blast
  from ef obtain lines0 where l0: "files E (filename2 @ ''00.dat'') = Some lines0"
    "0 < length lines0" "4 < length (split (lines0 ! 0))"
    "py_float E (split (lines0 ! 0) ! 4) = Some ef"
    by (auto simp: read_efermi_def readlines_def float_at_def float_e_def bind_e_eq_Inr nth_e_Inr
        split: option.splits)
  from first_table [OF ldos n es] obtain lines1 rows where
    l1: "files E (filename2 @ ''01.dat'') = Some lines1"
    and rows: "loadtxt_rows (floatconv E) lines1 = Inr rows"
    and len: "es = map (\<lambda>r. r ! 0) rows"
    by blast
  have "map (\<lambda>ts. floatconv E (ts ! 0)) (data_lines lines1) = map Some es"
  proof (rule nth_equalityI)
    show "length (map (\<lambda>ts. floatconv E (ts ! 0)) (data_lines lines1)) = length (map Some es)"
      using loadtxt_rows_Inr(1) [OF rows] len by simp
  next
    fix i assume "i < length (map (\<lambda>ts. floatconv E (ts ! 0)) (data_lines lines1))"
    then have i: "i < length rows" using loadtxt_rows_Inr(1) [OF rows] by simp
    then have "rows ! i \<noteq> []" using loadtxt_rows_Inr(4) [OF rows, of "rows ! i"] by simp
    then have "0 < length (rows ! i)" by simp
    from loadtxt_rows_Inr(3) [OF rows i this] i len loadtxt_rows_Inr(1) [OF rows]
    show "map (\<lambda>ts. floatconv E (ts ! 0)) (data_lines lines1) ! i = map Some es ! i"
      by simp
  qed
  with l0 l1 obj show ?thesis
    by (simp add: CompleteDos_def Dos_def)
qed

lemma ex_run: "\<not> isl (LDos_from_file ex_env ''feff.inp'' ''ldos'')"
  by code_simp

lemma ex_obj: "\<exists>obj. LDos_from_file ex_env ''feff.inp'' ''ldos'' = Inr obj"
  using ex_run by (cases "LDos_from_file ex_env ''feff.inp'' ''ldos''") simp_all

lemma ex_files_00: "files ex_env (''ldos'' @ ''00.dat'') = Some ex_ldos_head"
  by (simp add: ex_env_def ex_files_def)

lemma ex_files_01:
  "files ex_env (''ldos'' @ ''01.dat'') = Some (ex_ldos_head @ [''1 10 20 30 40'', ''2 11 21 31 41''])"
  by (simp add: ex_env_def ex_files_def)

lemma ex_fermi_token: "py_float ex_env (split (ex_ldos_head ! 0) ! 4) = Some 5"
  by code_simp

lemma ex_first_column:
  "map (\<lambda>ts. floatconv ex_env (ts ! 0))
     (data_lines (ex_ldos_head @ [''1 10 20 30 40'', ''2 11 21 31 41''])) = [Some 1, Some 2]"
  by code_simp

lemma ex_values:
  "map_sum id (\<lambda>obj. (dos_structure (complete_dos obj), densities (complete_dos obj) Spin_up))
     (LDos_from_file ex_env ''feff.inp'' ''ldos'') = Inr (ex_sites, Some [620, 632])"
  by code_simp

lemma ex_partial_0s:
  "map_sum id (\<lambda>obj. partial_density (complete_dos obj) (ex_sites ! 0) Orbital_s Spin_up)
     (LDos_from_file ex_env ''feff.inp'' ''ldos'') = Inr (Some [10, 11])"
  by code_simp

lemma ex_partial_1d:
  "map_sum id (\<lambda>obj. partial_density (complete_dos obj) (ex_sites ! 1) Orbital_dxy Spin_up)
     (LDos_from_file ex_env ''feff.inp'' ''ldos'') = Inr (Some [70, 71])"
  by code_simp

lemma ex_partial_2f:
  "map_sum id (\<lambda>obj. partial_density (complete_dos obj) (ex_sites ! 2) Orbital_f0 Spin_up)
     (LDos_from_file ex_env ''feff.inp'' ''ldos'') = Inr (Some [80, 81])"
  by code_simp

lemma ex_pot: "pot_string_from_file ex_env ''feff.inp''
    = Inr (''POTENTIALS'' @ [CHR 0x0A] @ ''0 27 Co'' @ [CHR 0x0A] @ ''1 27 Co'' @ [CHR 0x0A] @ ''2 8 O'')"
  "pot_dict_from_string ex_env s = Inr ([(''Co'', 1), (''O'', 2)], [(0, ''Co''), (1, ''Co''), (2, ''O'')])"
  by (simp_all add: ex_env_def)

theorem fermi_and_energies_witness:
  "\<exists>obj. LDos_from_file ex_env ''feff.inp'' ''ldos'' = Inr obj
       \<and> efermi (complete_dos obj) = 5 \<and> energies (complete_dos obj) = [1, 2]"
proof -
  from ex_obj obtain obj where obj: "LDos_from_file ex_env ''feff.inp'' ''ldos'' = Inr obj" ..
  from fermi_and_energies [OF obj] ex_files_00 ex_files_01 ex_fermi_token ex_first_column
  have "efermi (complete_dos obj) = 5" "map Some (energies (complete_dos obj)) = [Some 1, Some 2]"
    by auto
  then have "efermi (complete_dos obj) = 5" "energies (complete_dos obj) = [1, 2]"
    by (auto simp: map_eq_Cons_conv)
  with obj show ?thesis by (intro exI [of _ obj]) simp
qed

theorem equal_lengths_witness:
  "\<exists>obj tdos ds. LDos_from_file ex_env ''feff.inp'' ''ldos'' = Inr obj
       \<and> length (energies (complete_dos obj)) = 2
       \<and> densities (complete_dos obj) Spin_up = Some tdos \<and> length tdos = 2
       \<and> partial_density (complete_dos obj) (ex_sites ! 1) Orbital_dxy Spin_up = Some ds
       \<and> length ds = 2"
proof -
  from ex_obj obtain obj where obj: "LDos_from_file ex_env ''feff.inp'' ''ldos'' = Inr obj" ..
  have two: "length (data_lines (ex_ldos_head @ [''1 10 20 30 40'', ''2 11 21 31 41''])) = 2"
    by code_simp
  from ex_partial_1d obj
  have pd: "partial_density (complete_dos obj) (ex_sites ! 1) Orbital_dxy Spin_up = Some [70, 71]"
    by simp
  from equal_lengths [OF obj] ex_files_01 two obtain tdos where
    len: "length (energies (complete_dos obj)) = 2"
      "densities (complete_dos obj) Spin_up = Some tdos" "length tdos = 2"
      "\<forall>site orb sp ds. partial_density (complete_dos obj) site orb sp = Some ds \<longrightarrow> length ds = 2"
    by auto
  from len(4) pd have "length [70, 71::int] = 2" by simp
  with obj len(1-3) pd show ?thesis
    by (intro exI [of _ obj] exI [of _ tdos] exI [of _ "[70, 71]"]) simp
qed

theorem only_spin_up_witness:
  "\<exists>obj om sm. LDos_from_file ex_env ''feff.inp'' ''ldos'' = Inr obj
       \<and> dom (densities (complete_dos obj)) = {Spin_up}
       \<and> pdos (complete_dos obj) (ex_sites ! 0) = Some om \<and> om Orbital_s = Some sm
       \<and> sm Spin_up = Some [10, 11] \<and> dom sm = {Spin_up}"
proof -
  from ex_obj obtain obj where obj: "LDos_from_file ex_env ''feff.inp'' ''ldos'' = Inr obj" ..
  from ex_partial_0s obj
  have "partial_density (complete_dos obj) (ex_sites ! 0) Orbital_s Spin_up = Some [10, 11]"
    by simp
  then obtain om sm where om: "pdos (complete_dos obj) (ex_sites ! 0) = Some om"
    "om Orbital_s = Some sm" "sm Spin_up = Some [10, 11]"
    by (auto simp: partial_density_def bind_eq_Some_conv)
  note both = only_spin_up [OF obj]
  from both have "dom (densities (complete_dos obj)) = {Spin_up}" by (rule conjunct1)
  moreover from both [THEN conjunct2, rule_format, OF om(1) om(2)] have "dom sm = {Spin_up}" .
  ultimately show ?thesis using obj om
    by (intro exI [of _ obj] exI [of _ om] exI [of _ sm]) simp
qed

theorem total_dos_is_sum_witness:
  "\<exists>obj tdos pd. LDos_from_file ex_env ''feff.inp'' ''ldos'' = Inr obj
       \<and> densities (complete_dos obj) Spin_up = Some tdos \<and> tdos = [620, 632]
       \<and> partial_density (complete_dos obj) (ex_sites ! 2) Orbital_f0 Spin_up = Some (pd 2 3)
       \<and> pd 2 3 = [80, 81]
       \<and> tdos ! 1 = foldl (+) 0 (concat (map (\<lambda>i. map (\<lambda>k. pd i k ! 1) [0..<4]) [0..<3]))"
proof -
  from ex_obj obtain obj where obj: "LDos_from_file ex_env ''feff.inp'' ''ldos'' = Inr obj" ..
  from ex_values obj have st: "dos_structure (complete_dos obj) = ex_sites"
    and td: "densities (complete_dos obj) Spin_up = Some [620, 632]"
    by simp_all
  from ex_partial_2f obj
  have pd: "partial_density (complete_dos obj) (ex_sites ! 2) Orbital_f0 Spin_up = Some [80, 81]"
    by simp
  from total_dos_is_sum [OF obj ex_pot] obtain tdos pd where
    1: "densities (complete_dos obj) Spin_up = Some tdos"
    and 2: "\<forall>i<length (dos_structure (complete_dos obj)). \<forall>k<4.
        partial_density (complete_dos obj) (dos_structure (complete_dos obj) ! i)
          (map snd vorb ! k) Spin_up = Some (pd i k)"
    and 3: "\<forall>j<length tdos. tdos ! j = foldl (+) 0
        (concat (map (\<lambda>i. map (\<lambda>k. pd i k ! j) [0..<4])
                     [0..<length (dos_structure (complete_dos obj))]))"
    by blast
  from 1 td have tdos: "tdos = [620, 632]" by simp
  have "(2::nat) < length ex_sites" "(3::nat) < 4" by (simp_all add: ex_sites_def)
  with 2 [rule_format, of 2 3] st
  have "partial_density (complete_dos obj) (ex_sites ! 2) (map snd vorb ! 3) Spin_up
      = Some (pd 2 3)"
    by simp
  moreover have "map snd vorb ! 3 = Orbital_f0" by (simp add: vorb_def)
  ultimately have pd23: "pd 2 3 = [80, 81]"
    "partial_density (complete_dos obj) (ex_sites ! 2) Orbital_f0 Spin_up = Some (pd 2 3)"
    using pd by simp_all
  have "length ex_sites = 3" by (simp add: ex_sites_def)
  with 3 [rule_format, of 1] tdos st
  have "tdos ! 1 = foldl (+) 0 (concat (map (\<lambda>i. map (\<lambda>k. pd i k ! 1) [0..<4]) [0..<3]))"
    by simp
  with obj 1 tdos pd23 show ?thesis
    by (intro exI [of _ obj] exI [of _ tdos] exI [of _ pd]) simp
qed

section \<open>The charge transfer table and the failures of the readers\<close>

lemma float_at_Inr: "float_at E lines l t = Inr x \<longleftrightarrow> token_float E lines l t x"
  by (auto simp: float_at_def token_float_def float_e_def bind_e_eq_Inr nth_e_Inr split: option.splits)

lemma digit_char_inj:
  assumes a: "a < 10" and b: "b < 10" and eq: "digit_char a = digit_char b"
  shows "a = b"
proof -
  from arg_cong [OF eq, of "of_char :: char \<Rightarrow> nat"]
  have "(48 + a) mod 256 = (48 + b) mod 256"
    by (simp only: digit_char_def of_char_of)
  with a b show "a = b" by simp
qed

lemma str_nat_nonempty: "str_nat n \<noteq> []"
  by (subst str_nat.simps) simp

lemma length_str_nat_1: "length (str_nat n) = 1 \<longleftrightarrow> n < 10"
proof (cases "n < 10")
  case True
  then show ?thesis by (subst str_nat.simps) simp
next
  case False
  have "length (str_nat (n div 10)) \<noteq> 0" using str_nat_nonempty by simp
  with False show ?thesis by (subst str_nat.simps) simp
qed

lemma str_nat_inj: "str_nat n = str_nat m \<Longrightarrow> n = m"
proof (induction n arbitrary: m rule: str_nat.induct)
  case (1 n)
  show ?case
  proof (cases "n < 10")
    case True
    with "1.prems" length_str_nat_1 [of n] length_str_nat_1 [of m] have m: "m < 10" by simp
    from "1.prems" True m have "digit_char n = digit_char m"
      by (simp add: str_nat.simps [of n] str_nat.simps [of m])
    with True m show ?thesis by (rule digit_char_inj)
  next
    case False
    with "1.prems" length_str_nat_1 [of n] length_str_nat_1 [of m] have m: "\<not> m < 10" by simp
    from "1.prems" False m
    have "str_nat (n div 10) @ [digit_char (n mod 10)] = str_nat (m div 10) @ [digit_char (m mod 10)]"
      by (simp add: str_nat.simps [of n] str_nat.simps [of m])
    then have eq: "str_nat (n div 10) = str_nat (m div 10)" "digit_char (n mod 10) = digit_char (m mod 10)"
      by simp_all
    from "1.IH" [OF False eq(1)] have "n div 10 = m div 10" .
    moreover from eq(2) have "n mod 10 = m mod 10" by (intro digit_char_inj) simp_all
    ultimately show ?thesis by (metis div_mult_mod_eq)
  qed
qed

lemma od_set_new: "k \<notin> fst ` set ps \<Longrightarrow> od_set ps k v = ps @ [(k, v)]"
  by (induction ps) auto

lemma charge_fold:
  assumes "foldM_e (\<lambda>i cht. bind_e (entry i) (\<lambda>v. Inr (od_set cht (str_nat i) v))) xs acc = Inr cht"
    and "distinct xs" and "fst ` set acc \<inter> str_nat ` set xs = {}"
  shows "cht = acc @ map (\<lambda>i. (str_nat i, projr (entry i))) xs \<and> (\<forall>i\<in>set xs. \<exists>v. entry i = Inr v)"
  using assms
proof (induction xs arbitrary: acc)
  case Nil
  then show ?case by simp
next
  case (Cons x xs)
  let ?step = "\<lambda>i cht. bind_e (entry i) (\<lambda>v. Inr (od_set cht (str_nat i) v))"
  from Cons.prems(1) obtain v where v: "entry x = Inr v"
    and rest: "foldM_e ?step xs (od_set acc (str_nat x) v) = Inr cht"
    by (auto simp: bind_e_eq_Inr)
  from Cons.prems(3) have new: "str_nat x \<notin> fst ` set acc" by auto
  then have acc': "od_set acc (str_nat x) v = acc @ [(str_nat x, v)]" by (rule od_set_new)
  from Cons.prems(2) have "str_nat x \<notin> str_nat ` set xs"
    by (auto dest: str_nat_inj)
  with Cons.prems(3) have disj: "fst ` set (acc @ [(str_nat x, v)]) \<inter> str_nat ` set xs = {}"
    by auto
  from Cons.prems(2) have "distinct xs" by simp
  from Cons.IH [OF rest [unfolded acc'] this disj] v show ?case by simp
qed

lemma charge_entry_Inr:
  assumes "charge_entry E f2 pot_dict i = Inr v"
  shows "\<exists>lines atom s p d f tot. files E (ldos_path f2 i) = Some lines
        \<and> token_float E lines 3 2 s \<and> token_float E lines 4 2 p \<and> token_float E lines 5 2 d
        \<and> token_float E lines 6 2 f \<and> token_float E lines 1 4 tot
        \<and> map_of pot_dict (int i) = Some atom
        \<and> v = [(atom, [''s'' \<mapsto> s, ''p'' \<mapsto> p, ''d'' \<mapsto> d, ''f'' \<mapsto> f, ''tot'' \<mapsto> tot])]"
proof -
  from assms obtain lines where lines: "readlines E (ldos_path f2 i) = Inr lines"
    and 1: "bind_e (float_at E lines 3 2) (\<lambda>s.
            bind_e (float_at E lines 4 2) (\<lambda>p.
            bind_e (float_at E lines 5 2) (\<lambda>d.
            bind_e (float_at E lines 6 2) (\<lambda>f1.
            bind_e (float_at E lines 1 4) (\<lambda>tot.
            bind_e (getitem (map_of pot_dict) (int i)) (\<lambda>atom.
              Inr [(atom, [''s'' \<mapsto> s, ''p'' \<mapsto> p, ''d'' \<mapsto> d, ''f'' \<mapsto> f1, ''tot'' \<mapsto> tot])]))))))
          = Inr v"
    unfolding charge_entry_def ldos_path_def [symmetric]
    by (cases "readlines E (ldos_path f2 i)") simp_all
  from 1 obtain s where s: "float_at E lines 3 2 = Inr s"
    by (cases "float_at E lines 3 2") simp_all
  from 1 s obtain p where p: "float_at E lines 4 2 = Inr p"
    by (cases "float_at E lines 4 2") simp_all
  from 1 s p obtain d where d: "float_at E lines 5 2 = Inr d"
    by (cases "float_at E lines 5 2") simp_all
  from 1 s p d obtain f where f: "float_at E lines 6 2 = Inr f"
    by (cases "float_at E lines 6 2") simp_all
  from 1 s p d f obtain tot where tot: "float_at E lines 1 4 = Inr tot"
    by (cases "float_at E lines 1 4") simp_all
  from 1 s p d f tot obtain atom where atom: "map_of pot_dict (int i) = Some atom"
    by (cases "map_of pot_dict (int i)") (simp_all add: getitem_def)
  from 1 s p d f tot atom
  have v: "v = [(atom, [''s'' \<mapsto> s, ''p'' \<mapsto> p, ''d'' \<mapsto> d, ''f'' \<mapsto> f, ''tot'' \<mapsto> tot])]"
    by (simp add: getitem_def del: fun_upd_apply)
  from lines have "files E (ldos_path f2 i) = Some lines"
    by (simp add: readlines_def split: option.splits)
  with s p d f tot atom v show ?thesis
    unfolding float_at_Inr by blast
qed

lemma charge_transfer_entries:
  assumes run: "LDos_charge_transfer_from_file E filename1 filename2 = Inr cht"
    and ps: "pot_string_from_file E filename1 = Inr ps"
    and dicts: "pot_dict_from_string E ps = Inr dicts"
    and i: "i \<le> length (fst dicts)"
  shows "\<exists>v. charge_entry E filename2 (snd dicts) i = Inr v"
proof -
  from run ps dicts
  have "foldM_e (\<lambda>i cht. bind_e (charge_entry E filename2 (snd dicts) i)
                    (\<lambda>v. Inr (od_set cht (str_nat i) v))) [0..<length (fst dicts) + 1] [] = Inr cht"
    by (simp add: LDos_charge_transfer_from_file_def Let_def)
  from charge_fold [OF this]
  have "\<And>i. i \<in> set [0..<length (fst dicts) + 1] \<Longrightarrow> \<exists>v. charge_entry E filename2 (snd dicts) i = Inr v"
    by auto
  moreover from i have "i \<in> set [0..<length (fst dicts) + 1]" by auto
  ultimately show ?thesis by blast
qed






lemma mapM_e_succeeds:
  assumes "\<And>x. x \<in> set xs \<Longrightarrow> \<exists>y. f x = Inr y"
  shows "\<exists>ys. mapM_e f xs = Inr ys"
  using assms
proof (induction xs)
  case Nil
  then show ?case by simp
next
  case (Cons x xs)
  from Cons.prems obtain y where y: "f x = Inr y" by auto
  from Cons.IH Cons.prems obtain ys where "mapM_e f xs = Inr ys" by auto
  with y show ?case by simp
qed

lemma hd_rows_length:
  assumes "loadtxt_rows conv ls = Inr rows" and "rows \<noteq> []"
  shows "length (hd rows) = length (hd (data_lines ls))"
proof -
  from assms(2) have "0 < length rows" by simp
  from loadtxt_rows_Inr(2) [OF assms(1) this] loadtxt_rows_Inr(1) [OF assms(1)] assms(2)
  show ?thesis by (cases rows; cases "data_lines ls") simp_all
qed

lemma loadtxt_rows_numeric:
  assumes "loadtxt_rows conv ls = Inr rows"
  shows "numeric_table conv ls"
  unfolding numeric_table_def
proof (intro ballI conjI)
  fix ts assume ts: "ts \<in> set (data_lines ls)"
  then obtain i where i: "i < length (data_lines ls)" "ts = data_lines ls ! i"
    by (auto simp: in_set_conv_nth)
  with loadtxt_rows_Inr(1) [OF assms] have ir: "i < length rows" by simp
  then have ne: "rows \<noteq> []" by auto
  from loadtxt_rows_Inr(4) [OF assms, of "rows ! i"] ir
  have "length (rows ! i) = length (hd rows)" by simp
  with loadtxt_rows_Inr(2) [OF assms ir] hd_rows_length [OF assms ne] i(2)
  show "length ts = length (hd (data_lines ls))" by simp
  fix t assume "t \<in> set ts"
  then obtain k where k: "k < length ts" "t = ts ! k" by (auto simp: in_set_conv_nth)
  with loadtxt_rows_Inr(2) [OF assms ir] i(2) have "k < length (rows ! i)" by simp
  from loadtxt_rows_Inr(3) [OF assms ir this] k(2) i(2) show "conv t \<noteq> None" by simp
qed

lemma numeric_loadtxt_rows:
  assumes "numeric_table conv ls"
  shows "\<exists>rows. loadtxt_rows conv ls = Inr rows"
proof -
  from assms have nt: "\<And>ts. ts \<in> set (data_lines ls) \<Longrightarrow>
      (\<forall>t\<in>set ts. conv t \<noteq> None) \<and> length ts = length (hd (data_lines ls))"
    unfolding numeric_table_def by (rule bspec)
  have conv_ok: "\<exists>r. convert_row conv ts = Inr r" if "ts \<in> set (data_lines ls)" for ts
    unfolding convert_row_def
  proof (rule mapM_e_succeeds)
    fix t assume "t \<in> set ts"
    with nt [OF that] have "conv t \<noteq> None" by (elim conjE) (rule bspec)
    then obtain x where "conv t = Some x" by (cases "conv t") simp_all
    then show "\<exists>y. (case conv t of None \<Rightarrow> Inl ValueError | Some x \<Rightarrow> Inr x) = Inr y" by simp
  qed
  have "\<exists>rows. mapM_e (convert_row conv) (data_lines ls) = Inr rows"
    by (rule mapM_e_succeeds) (rule conv_ok)
  then obtain rows where rows: "mapM_e (convert_row conv) (data_lines ls) = Inr rows" ..
  from rows have len: "length rows = length (data_lines ls)"
    by (simp add: mapM_e_Inr_iff)
  have row: "length (rows ! i) = length (data_lines ls ! i)" if "i < length (data_lines ls)" for i
  proof -
    from rows that have "convert_row conv (data_lines ls ! i) = Inr (rows ! i)"
      by (simp add: mapM_e_Inr_iff)
    then show ?thesis by (simp add: convert_row_Inr)
  qed
  have width: "length (rows ! i) = length (hd (data_lines ls))" if "i < length rows" for i
  proof -
    from that len have i: "i < length (data_lines ls)" by simp
    then have "data_lines ls ! i \<in> set (data_lines ls)" by (rule nth_mem)
    from nt [OF this] row [OF i] show ?thesis by simp
  qed
  show ?thesis
  proof (cases rows)
    case Nil
    with rows show ?thesis by (simp add: loadtxt_rows_def)
  next
    case (Cons r rs)
    have "length q = length r" if "q \<in> set rs" for q
    proof -
      from that obtain k where k: "k < length rs" "q = rs ! k" by (auto simp: in_set_conv_nth)
      with Cons width [of "Suc k"] width [of 0] show ?thesis by simp
    qed
    then have "list_all (\<lambda>q. length q = length r) rs" by (simp add: list_all_iff)
    with rows Cons show ?thesis by (simp add: loadtxt_rows_def)
  qed
qed

lemma loadtxt_succeeds_iff:
  "(\<exists>a. loadtxt E path = Inr a)
     \<longleftrightarrow> (\<exists>lines. files E path = Some lines \<and> numeric_table (floatconv E) lines)"
proof
  assume "\<exists>a. loadtxt E path = Inr a"
  then obtain lines rows where l: "files E path = Some lines"
    and r: "loadtxt_rows (floatconv E) lines = Inr rows"
    by (auto simp: loadtxt_def readlines_def bind_e_eq_Inr split: option.splits)
  from loadtxt_rows_numeric [OF r] l
  show "\<exists>lines. files E path = Some lines \<and> numeric_table (floatconv E) lines"
    by simp
next
  assume "\<exists>lines. files E path = Some lines \<and> numeric_table (floatconv E) lines"
  then obtain lines where l: "files E path = Some lines" "numeric_table (floatconv E) lines" by blast
  from numeric_loadtxt_rows [OF l(2)] obtain rows where "loadtxt_rows (floatconv E) lines = Inr rows" ..
  with l(1) show "\<exists>a. loadtxt E path = Inr a"
    by (simp add: loadtxt_def readlines_def)
qed

lemma Xmu_from_file_iff:
  "(\<exists>x. Xmu_from_file E filename input_filename = Inr x)
     \<longleftrightarrow> xmu_inputs_present E filename input_filename"
proof -
  have "(\<exists>x. Xmu_from_file E filename input_filename = Inr x) \<longleftrightarrow>
      (\<exists>a. loadtxt E filename = Inr a) \<and> (\<exists>h. Header_from_file E input_filename = Inr h)
    \<and> (\<exists>ps. Tags_from_file E input_filename = Inr ps)
    \<and> (\<exists>pots. pot_string_from_file E input_filename = Inr pots
         \<and> 1 < length (splitlines pots) \<and> 2 < length (split (splitlines pots ! 1)))"
    unfolding Xmu_from_file_def bind_e_eq_Inr nth_e_Inr by blast
  then show ?thesis
    by (simp only: xmu_inputs_present_def loadtxt_succeeds_iff)
qed

lemma squeeze_A2: "squeeze rows = A2 c rows' \<Longrightarrow> rows' = rows \<and> 2 \<le> length rows \<and> length (hd rows) \<noteq> 1"
  by (auto simp: squeeze_def split: list.splits if_splits)

lemma squeeze_cases:
  assumes len: "len_nd (squeeze rows) = Inr n"
    and items: "\<forall>i<n. item2 (squeeze rows) i 0 = Inr (es ! i)"
    and ne: "\<And>r. r \<in> set rows \<Longrightarrow> r \<noteq> []"
  shows "rows = [] \<or> 2 \<le> length rows \<and> 2 \<le> length (hd rows)"
proof (cases "squeeze rows")
  case (A0 x)
  with len show ?thesis by simp
next
  case (A1 xs)
  with len have n: "n = length xs" by simp
  have "n = 0"
  proof (rule ccontr)
    assume "n \<noteq> 0"
    with items have "item2 (squeeze rows) 0 0 = Inr (es ! 0)" by simp
    with A1 show False by (simp add: item2_Inr)
  qed
  with n A1 have "squeeze rows = A1 []" by simp
  with ne have "rows = []"
    by (auto simp: squeeze_def split: list.splits if_splits)
  then show ?thesis ..
next
  case (A2 c rows')
  from squeeze_A2 [OF this] have 2: "2 \<le> length rows" "length (hd rows) \<noteq> 1" by simp_all
  then have "hd rows \<in> set rows" by (cases rows) auto
  from ne [OF this] have "length (hd rows) \<noteq> 0" by simp
  with 2 have "2 \<le> length (hd rows)" by arith
  with 2 show ?thesis by simp
qed

lemma first_table_shape:
  assumes ldos: "load_ldos E f2 npot = Inr ldos"
    and n: "bind_e (getitem ldos 1) len_nd = Inr n"
    and es: "mapM_e (\<lambda>i. bind_e (getitem ldos 1) (\<lambda>a. item2 a i 0)) [0..<n] = Inr es"
  shows "\<exists>lines. files E (f2 @ ''01.dat'') = Some lines \<and> n = length (data_lines lines)
       \<and> (data_lines lines = [] \<or> 2 \<le> length (data_lines lines) \<and> 2 \<le> length (hd (data_lines lines)))"
proof -
  from n obtain a where a: "ldos 1 = Some a" "len_nd a = Inr n"
    by (auto simp: bind_e_eq_Inr getitem_Inr)
  from load_ldos_Inr [OF ldos] a(1) have "loadtxt E (ldos_path f2 (nat 1)) = Inr a" by blast
  then have "loadtxt E (f2 @ ''01.dat'') = Inr a" by (simp add: ldos_path_1)
  then obtain lines rows where lines: "files E (f2 @ ''01.dat'') = Some lines"
    and rows: "loadtxt_rows (floatconv E) lines = Inr rows" and sq: "a = squeeze rows"
    by (auto simp: loadtxt_def readlines_def bind_e_eq_Inr split: option.splits)
  from es a(1) have items: "length es = n" "\<forall>i<n. item2 a i 0 = Inr (es ! i)"
    by (simp_all add: mapM_e_upt getitem_def)
  have ne: "r \<noteq> []" if "r \<in> set rows" for r
    using loadtxt_rows_Inr(4) [OF rows that] by simp
  from squeeze_table [of rows n es] a(2) sq items ne have len: "n = length rows" by simp
  from squeeze_cases [of rows n es] a(2) sq items(2) ne
  have shape: "rows = [] \<or> 2 \<le> length rows \<and> 2 \<le> length (hd rows)" by simp
  have "data_lines lines = [] \<or> 2 \<le> length (data_lines lines) \<and> 2 \<le> length (hd (data_lines lines))"
  proof (cases "rows = []")
    case True
    with loadtxt_rows_Inr(1) [OF rows] show ?thesis by simp
  next
    case False
    with shape hd_rows_length [OF rows False] loadtxt_rows_Inr(1) [OF rows] show ?thesis by simp
  qed
  with lines len loadtxt_rows_Inr(1) [OF rows] show ?thesis by simp
qed

lemma site_table:
  assumes ldos: "load_ldos E f2 npot = Inr ldos" and d: "density ldos p 4 n = Inr ds" and n: "0 < n"
  shows "1 \<le> p \<and> p \<le> int npot
       \<and> (\<exists>lines. files E (ldos_path f2 (nat p)) = Some lines
            \<and> n \<le> length (data_lines lines) \<and> 5 \<le> length (hd (data_lines lines)))"
proof -
  from d have items: "\<And>j. j < n \<Longrightarrow> \<exists>a. ldos p = Some a \<and> item2 a j 4 = Inr (ds ! j)"
    by (simp add: density_Inr)
  from items [OF n] obtain a where a: "ldos p = Some a" by blast
  from load_ldos_Inr [OF ldos] a have p: "1 \<le> p" "p \<le> int npot"
    and load: "loadtxt E (ldos_path f2 (nat p)) = Inr a"
    by blast+
  from load obtain lines rows where lines: "files E (ldos_path f2 (nat p)) = Some lines"
    and rows: "loadtxt_rows (floatconv E) lines = Inr rows" and sq: "a = squeeze rows"
    by (auto simp: loadtxt_def readlines_def bind_e_eq_Inr split: option.splits)
  have cell: "j < length rows \<and> 4 < length (rows ! j)" if "j < n" for j
  proof -
    from items [OF that] a have "\<exists>v. item2 a j 4 = Inr v" by simp
    then obtain c rows' where "a = A2 c rows'" "j < length rows'" "4 < length (rows' ! j)"
      by (auto simp: item2_Inr)
    with sq squeeze_A2 [of rows c rows'] show ?thesis by simp
  qed
  from n have "n - 1 < n" by simp
  from cell [OF this] n have 1: "n \<le> length rows" by arith
  from cell [OF n] have 2: "rows \<noteq> []" "4 < length (hd rows)" by (auto simp: hd_conv_nth)
  from 1 2 hd_rows_length [OF rows 2(1)] loadtxt_rows_Inr(1) [OF rows] lines p show ?thesis
    by simp
qed

lemma LDos_from_file_inputs:
  assumes "LDos_from_file E filename1 filename2 = Inr obj"
  shows "ldos_inputs_present E filename1 filename2"
proof -
  from assms obtain hs h ps dicts ef ldos n es pl td ct where
    hs: "header_string_from_file E filename1 = Inr hs" and h: "Header_from_string E hs = Inr h"
    and ps: "pot_string_from_file E filename1 = Inr ps"
    and dicts: "pot_dict_from_string E ps = Inr dicts"
    and ef: "read_efermi E filename2 = Inr ef"
    and ldos: "load_ldos E filename2 (length (fst dicts)) = Inr ldos"
    and n: "bind_e (getitem ldos 1) len_nd = Inr n"
    and es: "mapM_e (\<lambda>i. bind_e (getitem ldos 1) (\<lambda>a. item2 a i 0)) [0..<n] = Inr es"
    and pl: "all_pdos ldos (fst dicts) (struct h) (length (struct h)) n = Inr pl"
    and ct: "LDos_charge_transfer_from_file E filename1 filename2 = Inr ct"
    by (rule LDos_from_file_Inr) blast
  from ef obtain lines0 where l0: "files E (filename2 @ ''00.dat'') = Some lines0"
    "token_float E lines0 0 4 ef"
    by (auto simp: read_efermi_def readlines_def float_at_Inr bind_e_eq_Inr split: option.splits)
  from first_table_shape [OF ldos n es] obtain lines1 where
    l1: "files E (filename2 @ ''01.dat'') = Some lines1" and len: "n = length (data_lines lines1)"
    and shape: "data_lines lines1 = []
        \<or> 2 \<le> length (data_lines lines1) \<and> 2 \<le> length (hd (data_lines lines1))"
    by blast
  have charge: "\<exists>lines. files E (ldos_path filename2 i) = Some lines
          \<and> charge_lines_present E lines \<and> map_of (snd dicts) (int i) \<noteq> None
          \<and> (1 \<le> i \<longrightarrow> numeric_table (floatconv E) lines)"
    if "i \<in> {0..length (fst dicts)}" for i
  proof -
    from that have i: "i \<le> length (fst dicts)" by simp
    from charge_transfer_entries [OF ct ps dicts i] obtain v where
      "charge_entry E filename2 (snd dicts) i = Inr v" ..
    from charge_entry_Inr [OF this] obtain lines where
      lines: "files E (ldos_path filename2 i) = Some lines"
      and c: "charge_lines_present E lines" "map_of (snd dicts) (int i) \<noteq> None"
      unfolding charge_lines_present_def by blast
    have "numeric_table (floatconv E) lines" if "1 \<le> i"
    proof -
      from load_ldos_Inr [OF ldos] that i have "\<exists>a. loadtxt E (ldos_path filename2 i) = Inr a"
        by blast
      with lines show ?thesis by (simp add: loadtxt_succeeds_iff)
    qed
    with lines c show ?thesis by blast
  qed
  have site: "\<exists>p. map_of (fst dicts) (symbol site) = Some p
          \<and> (data_lines lines1 \<noteq> [] \<longrightarrow>
               1 \<le> p \<and> p \<le> int (length (fst dicts))
             \<and> (\<exists>lines. files E (ldos_path filename2 (nat p)) = Some lines
                  \<and> length (data_lines lines1) \<le> length (data_lines lines)
                  \<and> 5 \<le> length (hd (data_lines lines))))"
    if "site \<in> set (struct h)" for site
  proof -
    from that obtain i where i: "i < length (struct h)" "site = struct h ! i"
      by (auto simp: in_set_conv_nth)
    from all_pdos_Inr [OF pl] i obtain p where
      p: "map_of (fst dicts) (symbol site) = Some p" "site_pdos ldos p n = Inr (pl ! i)"
      by auto
    have "3 < (4::nat)" by simp
    from site_pdos_orbitals [OF p(2) this] obtain ds where ds: "density ldos p 4 n = Inr ds"
      by auto
    have "1 \<le> p \<and> p \<le> int (length (fst dicts))
             \<and> (\<exists>lines. files E (ldos_path filename2 (nat p)) = Some lines
                  \<and> length (data_lines lines1) \<le> length (data_lines lines)
                  \<and> 5 \<le> length (hd (data_lines lines)))" if "data_lines lines1 \<noteq> []"
    proof -
      from that len have "0 < n" by simp
      from site_table [OF ldos ds this] len show ?thesis by simp
    qed
    with p(1) show ?thesis by blast
  qed
  show ?thesis
    unfolding ldos_inputs_present_def
    using hs h ps dicts l0 l1 shape charge site by blast
qed

text \<open>
  C5, as the code has it. \<open>LDos.from_file\<close> raises, and returns no object, when
  something it reads is missing: a file, a line or a token of the header lines, a token
  that is not a float, a table whose rows differ in length, a row or a column it indexes.
  \<open>Xmu.from_file\<close> raises exactly when something it reads is missing. Neither checks
  what it does not read.
\<close>

theorem from_file_raises:
  "(\<not> ldos_inputs_present E filename1 filename2
      \<longrightarrow> (\<exists>e. LDos_from_file E filename1 filename2 = Inl e))
   \<and> ((\<exists>e. Xmu_from_file E filename input_filename = Inl e)
        \<longleftrightarrow> \<not> xmu_inputs_present E filename input_filename)"
proof (rule conjI)
  show "\<not> ldos_inputs_present E filename1 filename2
      \<longrightarrow> (\<exists>e. LDos_from_file E filename1 filename2 = Inl e)"
    using LDos_from_file_inputs [of E filename1 filename2]
    by (cases "LDos_from_file E filename1 filename2") auto
  show "(\<exists>e. Xmu_from_file E filename input_filename = Inl e)
        \<longleftrightarrow> \<not> xmu_inputs_present E filename input_filename"
    unfolding Xmu_from_file_iff [symmetric]
    by (cases "Xmu_from_file E filename input_filename") auto
qed

theorem from_file_raises_witness:
  "\<not> ldos_inputs_present ex_env ''feff.inp'' ''none''
   \<and> (\<exists>e. LDos_from_file ex_env ''feff.inp'' ''none'' = Inl e)
   \<and> \<not> xmu_inputs_present ex_env ''none.dat'' ''feff.inp''
   \<and> (\<exists>e. Xmu_from_file ex_env ''none.dat'' ''feff.inp'' = Inl e)"
proof -
  have 1: "\<not> ldos_inputs_present ex_env ''feff.inp'' ''none''"
    by (simp add: ldos_inputs_present_def ex_env_def ex_files_def)
  have 2: "\<not> xmu_inputs_present ex_env ''none.dat'' ''feff.inp''"
    by (simp add: xmu_inputs_present_def ex_env_def ex_files_def)
  from from_file_raises [of ex_env "''feff.inp''" "''none''" "''none.dat''" "''feff.inp''"] 1 2
  show ?thesis by simp
qed

lemma ex_xmu3_load: "loadtxt ex_env ''xmu3.dat'' = Inr (A2 3 [[1, 2, 3], [4, 5, 6]])"
  by code_simp

lemma ex_atom:
  "bind_e (nth_e (splitlines (''POTENTIALS'' @ [CHR 0x0A] @ ''0 27 Co'' @ [CHR 0x0A] @ ''1 27 Co''
                  @ [CHR 0x0A] @ ''2 8 O'')) 1) (\<lambda>line. nth_e (split line) 2) = Inr ''Co''"
  by code_simp

text \<open>
  C5 as stated fails: \<open>Xmu.from_file\<close> does not check the number of columns. On a
  table of three columns it returns an object, and the fourth to sixth columns are found
  missing only when an accessor reads them.
\<close>

theorem from_file_raises_counterexample:
  "Xmu_from_file ex_env ''xmu3.dat'' ''feff.inp'' = Inr ex_xmu3
   \<and> data ex_xmu3 = A2 3 [[1, 2, 3], [4, 5, 6]]
   \<and> fst (Xmu_chi ex_xmu3) = Inl IndexError"
proof -
  have "Xmu_from_file ex_env ''xmu3.dat'' ''feff.inp'' =
      bind_e (bind_e (nth_e (splitlines (''POTENTIALS'' @ [CHR 0x0A] @ ''0 27 Co'' @ [CHR 0x0A]
                  @ ''1 27 Co'' @ [CHR 0x0A] @ ''2 8 O'')) 1) (\<lambda>line. nth_e (split line) 2))
        (\<lambda>atom. Inr \<lparr>header = ex_header, parameters = [''EDGE'' \<mapsto> ''K'', ''XANES'' \<mapsto> ''3.7''],
                       absorbing_atom = atom, data = A2 3 [[1, 2, 3], [4, 5, 6]]\<rparr>)"
    unfolding Xmu_from_file_def ex_xmu3_load
    by (simp add: ex_env_def bind_e_def split: sum.splits)
  then have "Xmu_from_file ex_env ''xmu3.dat'' ''feff.inp'' = Inr ex_xmu3"
    unfolding ex_atom by (simp add: ex_xmu3_def ex_xmu_def)
  moreover have "data ex_xmu3 = A2 3 [[1, 2, 3], [4, 5, 6]]"
    by (simp add: ex_xmu3_def)
  moreover have "fst (Xmu_chi ex_xmu3) = Inl IndexError"
    by (simp add: Xmu_chi_def fst_column ex_xmu3_def)
  ultimately show ?thesis by simp
qed







end
